theory Spec2Isabelle
  imports Main "HOL-Library.Sublist"
begin

section \<open>Python strings\<close>

text \<open>
  Python's \<^verbatim>\<open>str\<close> is modelled as \<^typ>\<open>string\<close>; the model covers ASCII text, where
  \<^verbatim>\<open>str.lower\<close>, \<^verbatim>\<open>str.upper\<close> and \<^verbatim>\<open>str.title\<close> only touch the letters A-Z and a-z.
\<close>

definition is_upper :: "char \<Rightarrow> bool" where
  "is_upper c = (65 \<le> (of_char c :: nat) \<and> (of_char c :: nat) \<le> 90)"

definition is_lower :: "char \<Rightarrow> bool" where
  "is_lower c = (97 \<le> (of_char c :: nat) \<and> (of_char c :: nat) \<le> 122)"

definition char_lower :: "char \<Rightarrow> char" where
  "char_lower c = (if is_upper c then char_of ((of_char c :: nat) + 32) else c)"

definition char_upper :: "char \<Rightarrow> char" where
  "char_upper c = (if is_lower c then char_of ((of_char c :: nat) - 32) else c)"

text \<open>\<^verbatim>\<open>s.lower()\<close>\<close>

definition str_lower :: "string \<Rightarrow> string" where
  "str_lower s = map char_lower s"

text \<open>\<^verbatim>\<open>s.replace(old, new)\<close> for one-character \<^verbatim>\<open>old\<close> and \<^verbatim>\<open>new\<close>.\<close>

definition str_replace :: "char \<Rightarrow> char \<Rightarrow> string \<Rightarrow> string" where
  "str_replace old new s = map (\<lambda>c. if c = old then new else c) s"

text \<open>
  \<^verbatim>\<open>s.title()\<close>: a cased character that follows an uncased one (or starts the string) is
  upper-cased, a cased character that follows a cased one is lower-cased.
\<close>

fun title_from :: "bool \<Rightarrow> string \<Rightarrow> string" where
  "title_from prev [] = []"
| "title_from prev (c # cs) =
     (if is_lower c then (if prev then c else char_upper c) # title_from True cs
      else if is_upper c then (if prev then char_lower c else c) # title_from True cs
      else c # title_from False cs)"

definition str_title :: "string \<Rightarrow> string" where
  "str_title s = title_from False s"

text \<open>\<^verbatim>\<open>str(n)\<close> for an integer: its decimal digits, with a minus sign when negative.\<close>

fun str_nat :: "nat \<Rightarrow> string" where
  "str_nat n =
     (if n < 10 then [char_of (48 + n)] else str_nat (n div 10) @ [char_of (48 + n mod 10)])"

declare str_nat.simps [simp del]

definition str_int :: "int \<Rightarrow> string" where
  "str_int i = (if i < 0 then CHR ''-'' # str_nat (nat (- i)) else str_nat (nat i))"

text \<open>
  \<^verbatim>\<open>os.path.join(a, b)\<close> on a POSIX system: an absolute \<^verbatim>\<open>b\<close> replaces \<^verbatim>\<open>a\<close>, otherwise the
  two are joined with exactly one separator between them.
\<close>

definition path_join :: "string \<Rightarrow> string \<Rightarrow> string" where
  "path_join a b =
     (if b \<noteq> [] \<and> hd b = CHR ''/'' then b
      else if a = [] \<or> last a = CHR ''/'' then a @ b
      else a @ ''/'' @ b)"

section \<open>The file system, the errors and the process environment\<close>

text \<open>
  A file system without links: every entry is found under its absolute path, the list of
  its component names from the root. A directory and a regular file each carry one
  permission bit (may the process write to it); a regular file carries its text.
\<close>

datatype node = Dir bool | File bool string

type_synonym filesystem = "string list \<rightharpoonup> node"

datatype error =
    FileExistsError
  | FileNotFoundError
  | NotADirectoryError
  | IsADirectoryError
  | PermissionError
  | VenvError string

text \<open>
  What the program reads from its environment: \<^verbatim>\<open>os.getcwd()\<close>, \<^verbatim>\<open>datetime.now().year\<close>,
  \<^verbatim>\<open>os.name\<close>, and the standard library's \<^verbatim>\<open>venv.create(dir, with_pip=True)\<close>, which is not
  part of the program and is taken as a parameter: a function of the directory's path
  and the file system that fails (leaving a file system behind) or returns the new file
  system.
\<close>

record env =
  cwd :: string
  year :: int
  os_name :: string
  venv_create :: "string \<Rightarrow> filesystem \<Rightarrow> (error \<times> filesystem) + filesystem"

section \<open>The scaffolder\<close>

record scaffolder =
  project_name :: string
  use_tests :: bool
  use_docs :: bool
  use_venv :: bool
  author :: string
  email :: string
  description :: string
  package_name :: string
  base_dir :: string

text \<open>\<^verbatim>\<open>ProjectScaffolder.__init__\<close>\<close>

definition scaffolder_init ::
  "env \<Rightarrow> string \<Rightarrow> bool \<Rightarrow> bool \<Rightarrow> bool \<Rightarrow> string \<Rightarrow> string \<Rightarrow> string \<Rightarrow> scaffolder" where
  "scaffolder_init e name tests docs venv auth mail descr =
     \<lparr> project_name = name,
       use_tests = tests,
       use_docs = docs,
       use_venv = venv,
       author = auth,
       email = mail,
       description = descr,
       package_name = str_lower (str_replace CHR ''-'' CHR ''_'' name),
       base_dir = path_join (cwd e) name \<rparr>"

section \<open>File-system operations\<close>

text \<open>\<^verbatim>\<open>s.split(sep)\<close>: the pieces of a string between the separators (never empty).\<close>

fun split_sep :: "char \<Rightarrow> string \<Rightarrow> string list" where
  "split_sep sep [] = [[]]"
| "split_sep sep (c # cs) =
     (if c = sep then [] # split_sep sep cs
      else (case split_sep sep cs of [] \<Rightarrow> [[c]] | w # ws \<Rightarrow> (c # w) # ws))"

definition components :: "string \<Rightarrow> string list" where
  "components p = split_sep CHR ''/'' p"

text \<open>
  Path resolution walks the component names from a directory \<open>cur\<close>: an empty name and
  \<^verbatim>\<open>.\<close> stay, \<^verbatim>\<open>..\<close> goes to the parent (the root is its own parent), any other name must
  be a directory of \<open>cur\<close>.
\<close>

fun walk_dir :: "filesystem \<Rightarrow> string list \<Rightarrow> string list \<Rightarrow> error + string list" where
  "walk_dir fs cur [] = Inr cur"
| "walk_dir fs cur (c # cs) =
     (if c = [] \<or> c = ''.'' then walk_dir fs cur cs
      else if c = ''..'' then walk_dir fs (butlast cur) cs
      else (case fs (cur @ [c]) of
              None \<Rightarrow> Inl FileNotFoundError
            | Some (Dir w) \<Rightarrow> walk_dir fs (cur @ [c]) cs
            | Some (File w t) \<Rightarrow> Inl NotADirectoryError))"

text \<open>
  Where a path leads: the directory that all components but the last resolve to, and the
  last component. The empty path leads nowhere.
\<close>

definition locate :: "filesystem \<Rightarrow> string \<Rightarrow> error + (string list \<times> string)" where
  "locate fs p =
     (if p = [] then Inl FileNotFoundError
      else (case walk_dir fs [] (butlast (components p)) of
              Inl err \<Rightarrow> Inl err
            | Inr d \<Rightarrow> Inr (d, last (components p))))"

text \<open>
  \<^verbatim>\<open>os.path.exists(p)\<close>: true when \<^verbatim>\<open>stat(p)\<close> succeeds, that is when the path leads to a
  directory and its last component names the directory itself, its parent or an entry
  of it.
\<close>

definition path_exists :: "filesystem \<Rightarrow> string \<Rightarrow> bool" where
  "path_exists fs p =
     (case locate fs p of
        Inl err \<Rightarrow> False
      | Inr (d, n) \<Rightarrow>
          (if n = [] \<or> n = ''.'' \<or> n = ''..'' then True else fs (d @ [n]) \<noteq> None))"

text \<open>
  \<^verbatim>\<open>os.makedirs(p, exist_ok=True)\<close>: every component that is missing is created as a
  directory, in order; a component that is a directory is entered; a component that is a
  regular file is an error. A directory is created only in a writable directory. The
  directories created before a failure stay.
\<close>

fun mkdirs :: "filesystem \<Rightarrow> string list \<Rightarrow> string list \<Rightarrow> (error \<times> filesystem) + filesystem" where
  "mkdirs fs cur [] = Inr fs"
| "mkdirs fs cur (c # cs) =
     (if c = [] \<or> c = ''.'' then mkdirs fs cur cs
      else if c = ''..'' then mkdirs fs (butlast cur) cs
      else (case fs (cur @ [c]) of
              Some (Dir w) \<Rightarrow> mkdirs fs (cur @ [c]) cs
            | Some (File w t) \<Rightarrow>
                Inl (if cs = [] then FileExistsError else NotADirectoryError, fs)
            | None \<Rightarrow>
                (case fs cur of
                   Some (Dir True) \<Rightarrow> mkdirs (fs(cur @ [c] \<mapsto> Dir True)) (cur @ [c]) cs
                 | Some (Dir False) \<Rightarrow> Inl (PermissionError, fs)
                 | Some (File w t) \<Rightarrow> Inl (NotADirectoryError, fs)
                 | None \<Rightarrow> Inl (FileNotFoundError, fs))))"

definition makedirs :: "filesystem \<Rightarrow> string \<Rightarrow> (error \<times> filesystem) + filesystem" where
  "makedirs fs p = (if p = [] then Inl (FileNotFoundError, fs) else mkdirs fs [] (components p))"

text \<open>
  \<^verbatim>\<open>with open(p, "w") as f: f.write(..); ..\<close>: the file is created or truncated and holds
  the concatenation of the strings written when the block is left. Opening fails, before
  anything is written, when the directory of the file does not resolve, when the path
  names a directory, or when permission is missing.
\<close>

definition open_write :: "filesystem \<Rightarrow> string \<Rightarrow> string \<Rightarrow> error + filesystem" where
  "open_write fs p txt =
     (case locate fs p of
        Inl err \<Rightarrow> Inl err
      | Inr (d, n) \<Rightarrow>
          (if n = [] \<or> n = ''.'' \<or> n = ''..'' then Inl IsADirectoryError
           else (case fs (d @ [n]) of
                   Some (Dir w) \<Rightarrow> Inl IsADirectoryError
                 | Some (File w t) \<Rightarrow>
                     if w then Inr (fs(d @ [n] \<mapsto> File w txt)) else Inl PermissionError
                 | None \<Rightarrow>
                     (case fs d of
                        Some (Dir True) \<Rightarrow> Inr (fs(d @ [n] \<mapsto> File True txt))
                      | Some (Dir False) \<Rightarrow> Inl PermissionError
                      | Some (File w t) \<Rightarrow> Inl NotADirectoryError
                      | None \<Rightarrow> Inl FileNotFoundError))))"

text \<open>Reading a regular file back: its text, when the path leads to one.\<close>

definition read_file :: "filesystem \<Rightarrow> string \<Rightarrow> string option" where
  "read_file fs p =
     (case locate fs p of
        Inl err \<Rightarrow> None
      | Inr (d, n) \<Rightarrow>
          (if n = [] \<or> n = ''.'' \<or> n = ''..'' then None
           else (case fs (d @ [n]) of Some (File w t) \<Rightarrow> Some t | _ \<Rightarrow> None)))"

section \<open>Program states and statements\<close>

text \<open>
  The world the program acts on is the file system and its standard output; while a
  scaffolder runs, the state also holds the object. A statement either raises (the
  error, with the state it leaves behind) or completes with the new state. A block of
  statements runs them in order and stops at the first that raises.
\<close>

record world =
  files :: filesystem
  stdout :: string

record state = world +
  self :: scaffolder

type_synonym step = "state \<Rightarrow> (error \<times> state) + state"

fun run :: "step list \<Rightarrow> step" where
  "run [] st = Inr st"
| "run (f # fs) st = (case f st of Inl x \<Rightarrow> Inl x | Inr st' \<Rightarrow> run fs st')"

definition run_if :: "(state \<Rightarrow> bool) \<Rightarrow> step list \<Rightarrow> step" where
  "run_if c steps st = (if c st then run steps st else Inr st)"

definition py_print :: "string \<Rightarrow> step" where
  "py_print t st = Inr (st\<lparr>stdout := stdout st @ t @ ''\<newline>''\<rparr>)"

definition os_makedirs :: "string \<Rightarrow> step" where
  "os_makedirs p st =
     (case makedirs (files st) p of
        Inl (err, fs') \<Rightarrow> Inl (err, st\<lparr>files := fs'\<rparr>)
      | Inr fs' \<Rightarrow> Inr (st\<lparr>files := fs'\<rparr>))"

definition write_file :: "string \<Rightarrow> string \<Rightarrow> step" where
  "write_file p txt st =
     (case open_write (files st) p txt of
        Inl err \<Rightarrow> Inl (err, st)
      | Inr fs' \<Rightarrow> Inr (st\<lparr>files := fs'\<rparr>))"

definition venv_create_step :: "env \<Rightarrow> string \<Rightarrow> step" where
  "venv_create_step e p st =
     (case venv_create e p (files st) of
        Inl (err, fs') \<Rightarrow> Inl (err, st\<lparr>files := fs'\<rparr>)
      | Inr fs' \<Rightarrow> Inr (st\<lparr>files := fs'\<rparr>))"

section \<open>The methods of the scaffolder\<close>

text \<open>
  Each method is given by the list of its statements, as a function of the object it is
  called on, and runs that list from the state at entry. No statement assigns to a field
  of the object, so the fields a statement reads are those at entry.
\<close>

definition get_current_year :: "env \<Rightarrow> int" where
  "get_current_year e = year e"

definition package_init_text :: "scaffolder \<Rightarrow> string" where
  \<open>package_init_text s = concat
     [''"""Main package for '' @ project_name s @ ''."""\<newline>\<newline>'',
      ''__version__ = "0.1.0"\<newline>'']\<close>

definition tests_init_text :: "string" where
  \<open>tests_init_text = concat
     [''"""Test package for {self.package_name}."""\<newline>'']\<close>

definition test_module_text :: "scaffolder \<Rightarrow> string" where
  \<open>test_module_text s = concat
     [''"""Tests for `'' @ package_name s @ ''` package."""\<newline>\<newline>'',
      ''import pytest\<newline>'',
      ''from '' @ package_name s @ '' import __version__\<newline>\<newline>\<newline>'',
      ''def test_version():\<newline>'',
      ''    """Test version is a string."""\<newline>'',
      ''    assert isinstance(__version__, str)\<newline>'']\<close>

definition docs_index_text :: "scaffolder \<Rightarrow> string" where
  \<open>docs_index_text s = concat
     [''# '' @ str_title (project_name s) @ ''\<newline>\<newline>'',
      description s @ ''\<newline>\<newline>'',
      ''## Installation\<newline>\<newline>'',
      ''```bash\<newline>pip install .\<newline>```\<newline>\<newline>'',
      ''## Usage\<newline>\<newline>'',
      ''```python\<newline>'',
      ''import '' @ package_name s @ ''\<newline>'',
      ''```\<newline>'']\<close>

definition setup_py_text :: "scaffolder \<Rightarrow> string" where
  \<open>setup_py_text s = concat
     [''#!/usr/bin/env python3\<newline>\<newline>'',
      ''from setuptools import setup, find_packages\<newline>\<newline>'',
      ''with open("README.md", "r", encoding="utf-8") as f:\<newline>'',
      ''    long_description = f.read()\<newline>\<newline>'',
      ''setup(\<newline>'',
      ''    name="'' @ project_name s @ ''",\<newline>'',
      ''    version="0.1.0",\<newline>'',
      ''    author="'' @ author s @ ''",\<newline>'',
      ''    author_email="'' @ email s @ ''",\<newline>'',
      ''    description="'' @ description s @ ''",\<newline>'',
      ''    long_description=long_description,\<newline>'',
      ''    long_description_content_type="text/markdown",\<newline>'',
      ''    url="https://github.com/'' @ author s @ ''/'' @ project_name s @ ''",\<newline>'',
      ''    packages=find_packages(),\<newline>'',
      ''    classifiers=[\<newline>'',
      ''        "Programming Language :: Python :: 3",\<newline>'',
      ''        "License :: OSI Approved :: MIT License",\<newline>'',
      ''        "Operating System :: OS Independent",\<newline>'',
      ''    ],\<newline>'',
      ''    python_requires=">=3.6",\<newline>'',
      ''    install_requires=[\<newline>'',
      ''        # Add your dependencies here\<newline>'',
      ''    ],\<newline>'',
      '')\<newline>'']\<close>

definition pyproject_text :: "string" where
  \<open>pyproject_text = concat
     [''[build-system]\<newline>'',
      ''requires = ["setuptools>=42", "wheel"]\<newline>'',
      ''build-backend = "setuptools.build_meta"\<newline>'']\<close>

definition setup_cfg_text :: "string" where
  \<open>setup_cfg_text = concat
     [''[metadata]\<newline>'',
      ''name = {self.project_name}\<newline>'',
      ''description = {self.description}\<newline>'',
      ''author = {self.author}\<newline>'',
      ''license = MIT\<newline>'',
      ''license_file = LICENSE\<newline>'',
      ''platforms = unix, linux, osx, win32\<newline>'',
      ''classifiers =\<newline>'',
      ''    Programming Language :: Python :: 3\<newline>'',
      ''    Programming Language :: Python :: 3 :: Only\<newline>'',
      ''    Programming Language :: Python :: 3.6\<newline>'',
      ''    Programming Language :: Python :: 3.7\<newline>'',
      ''    Programming Language :: Python :: 3.8\<newline>'',
      ''    Programming Language :: Python :: 3.9\<newline>'',
      ''\<newline>[options]\<newline>'',
      ''packages =\<newline>'',
      ''    {self.package_name}\<newline>'',
      ''install_requires =\<newline>'',
      ''python_requires = >=3.6\<newline>'',
      ''zip_safe = no\<newline>'']\<close>

definition readme_text :: "scaffolder \<Rightarrow> string" where
  \<open>readme_text s = concat
     [''# '' @ str_title (project_name s) @ ''\<newline>\<newline>'',
      description s @ ''\<newline>\<newline>'',
      ''## Features\<newline>\<newline>'',
      ''* TODO\<newline>\<newline>'',
      ''## Installation\<newline>\<newline>'',
      ''```bash\<newline>'',
      ''pip install .\<newline>'',
      ''```\<newline>\<newline>'',
      ''## Quick Start\<newline>\<newline>'',
      ''```python\<newline>'',
      ''import '' @ package_name s @ ''\<newline>\<newline>'',
      ''# Add example usage\<newline>'',
      ''```\<newline>\<newline>'',
      ''## License\<newline>\<newline>'',
      ''This project is licensed under the MIT License - see the LICENSE file for details.\<newline>'']\<close>

definition license_text :: "env \<Rightarrow> scaffolder \<Rightarrow> string" where
  \<open>license_text e s = concat
     [''MIT License\<newline>\<newline>'',
      ''Copyright (c) '' @ str_int (get_current_year e) @ '' '' @ author s @ ''\<newline>\<newline>'',
      ''Permission is hereby granted, free of charge, to any person obtaining a copy\<newline>'',
      ''of this software and associated documentation files (the "Software"), to deal\<newline>'',
      ''in the Software without restriction, including without limitation the rights\<newline>'',
      ''to use, copy, modify, merge, publish, distribute, sublicense, and/or sell\<newline>'',
      ''copies of the Software, and to permit persons to whom the Software is\<newline>'',
      ''furnished to do so, subject to the following conditions:\<newline>\<newline>'',
      ''The above copyright notice and this permission notice shall be included in all\<newline>'',
      ''copies or substantial portions of the Software.\<newline>\<newline>'',
      ''THE SOFTWARE IS PROVIDED "AS IS", WITHOUT WARRANTY OF ANY KIND, EXPRESS OR\<newline>'',
      ''IMPLIED, INCLUDING BUT NOT LIMITED TO THE WARRANTIES OF MERCHANTABILITY,\<newline>'',
      ''FITNESS FOR A PARTICULAR PURPOSE AND NONINFRINGEMENT. IN NO EVENT SHALL THE\<newline>'',
      ''AUTHORS OR COPYRIGHT HOLDERS BE LIABLE FOR ANY CLAIM, DAMAGES OR OTHER\<newline>'',
      ''LIABILITY, WHETHER IN AN ACTION OF CONTRACT, TORT OR OTHERWISE, ARISING FROM,\<newline>'',
      ''OUT OF OR IN CONNECTION WITH THE SOFTWARE OR THE USE OR OTHER DEALINGS IN THE\<newline>'',
      ''SOFTWARE.\<newline>'']\<close>

definition gitignore_text :: "string" where
  \<open>gitignore_text = concat
     [''# Byte-compiled / optimized / DLL files\<newline>'',
      ''__pycache__/\<newline>'',
      ''*.py[cod]\<newline>'',
      ''*$py.class\<newline>\<newline>'',
      ''# Distribution / packaging\<newline>'',
      ''dist/\<newline>'',
      ''build/\<newline>'',
      ''*.egg-info/\<newline>\<newline>'',
      ''# Unit test / coverage reports\<newline>'',
      ''.coverage\<newline>'',
      ''htmlcov/\<newline>'',
      ''.pytest_cache/\<newline>\<newline>'',
      ''# Environments\<newline>'',
      ''.env\<newline>'',
      ''.venv\<newline>'',
      ''env/\<newline>'',
      ''venv/\<newline>'',
      ''ENV/\<newline>\<newline>'',
      ''# IDE specific files\<newline>'',
      ''.idea/\<newline>'',
      ''.vscode/\<newline>'',
      ''*.swp\<newline>'',
      ''*.swo\<newline>'']\<close>

definition makefile_text :: "string" where
  \<open>makefile_text = concat
     [''.PHONY: clean clean-test clean-pyc clean-build help\<newline>\<newline>'',
      ''help:\<newline>'',
      [CHR 0x09] @ ''@echo "clean - remove all build, test, coverage and Python artifacts"\<newline>'',
      [CHR 0x09] @ ''@echo "clean-build - remove build artifacts"\<newline>'',
      [CHR 0x09] @ ''@echo "clean-pyc - remove Python file artifacts"\<newline>'',
      [CHR 0x09] @ ''@echo "clean-test - remove test and coverage artifacts"\<newline>'',
      [CHR 0x09] @ ''@echo "lint - check style with flake8"\<newline>'',
      [CHR 0x09] @ ''@echo "test - run tests quickly with the default Python"\<newline>'',
      [CHR 0x09] @ ''@echo "coverage - check code coverage quickly with the default Python"\<newline>'',
      [CHR 0x09] @ ''@echo "build - build the package"\<newline>'',
      [CHR 0x09] @ ''@echo "install - install the package to the active Python site-packages"\<newline>\<newline>'',
      ''clean: clean-build clean-pyc clean-test\<newline>\<newline>'',
      ''clean-build:\<newline>'',
      [CHR 0x09] @ ''rm -fr build/\<newline>'',
      [CHR 0x09] @ ''rm -fr dist/\<newline>'',
      [CHR 0x09] @ ''rm -fr .eggs/\<newline>'',
      [CHR 0x09] @ ''find . -name "*.egg-info" -exec rm -fr {} +\<newline>'',
      [CHR 0x09] @ ''find . -name "*.egg" -exec rm -f {} +\<newline>\<newline>'',
      ''clean-pyc:\<newline>'',
      [CHR 0x09] @ ''find . -name "*.pyc" -exec rm -f {} +\<newline>'',
      [CHR 0x09] @ ''find . -name "*.pyo" -exec rm -f {} +\<newline>'',
      [CHR 0x09] @ ''find . -name "*~" -exec rm -f {} +\<newline>'',
      [CHR 0x09] @ ''find . -name "__pycache__" -exec rm -fr {} +\<newline>\<newline>'',
      ''clean-test:\<newline>'',
      [CHR 0x09] @ ''rm -fr .coverage\<newline>'',
      [CHR 0x09] @ ''rm -fr htmlcov/\<newline>'',
      [CHR 0x09] @ ''rm -fr .pytest_cache\<newline>\<newline>'',
      ''lint:\<newline>'',
      [CHR 0x09] @ ''flake8 {self.package_name} tests\<newline>\<newline>'',
      ''test:\<newline>'',
      [CHR 0x09] @ ''pytest\<newline>\<newline>'',
      ''coverage:\<newline>'',
      [CHR 0x09] @ ''coverage run --source {self.package_name} -m pytest\<newline>'',
      [CHR 0x09] @ ''coverage report -m\<newline>'',
      [CHR 0x09] @ ''coverage html\<newline>\<newline>'',
      ''build:\<newline>'',
      [CHR 0x09] @ ''python setup.py sdist bdist_wheel\<newline>\<newline>'',
      ''install:\<newline>'',
      [CHR 0x09] @ ''pip install .\<newline>'']\<close>

definition create_directory_structure_statements :: "scaffolder \<Rightarrow> step list" where
  "create_directory_structure_statements s =
     (let package_dir = path_join (base_dir s) (package_name s);
          tests_dir = path_join (base_dir s) ''tests'';
          docs_dir = path_join (base_dir s) ''docs''
      in [py_print (''Creating project: '' @ project_name s),
          os_makedirs (base_dir s),
          os_makedirs package_dir,
          write_file (path_join package_dir ''__init__.py'') (package_init_text s),
          run_if (\<lambda>st. use_tests (self st))
            [os_makedirs tests_dir,
             write_file (path_join tests_dir ''__init__.py'') tests_init_text,
             write_file (path_join tests_dir (''test_'' @ package_name s @ ''.py''))
               (test_module_text s)],
          run_if (\<lambda>st. use_docs (self st))
            [os_makedirs docs_dir,
             write_file (path_join docs_dir ''index.md'') (docs_index_text s)]])"

definition create_directory_structure :: "step" where
  "create_directory_structure st = run (create_directory_structure_statements (self st)) st"

definition create_setup_files_statements :: "scaffolder \<Rightarrow> step list" where
  "create_setup_files_statements s =
     [write_file (path_join (base_dir s) ''setup.py'') (setup_py_text s),
      write_file (path_join (base_dir s) ''pyproject.toml'') pyproject_text,
      write_file (path_join (base_dir s) ''setup.cfg'') setup_cfg_text]"

definition create_setup_files :: "step" where
  "create_setup_files st = run (create_setup_files_statements (self st)) st"

definition create_readme_statements :: "scaffolder \<Rightarrow> step list" where
  "create_readme_statements s =
     [write_file (path_join (base_dir s) ''README.md'') (readme_text s)]"

definition create_readme :: "step" where
  "create_readme st = run (create_readme_statements (self st)) st"

definition create_license_statements :: "env \<Rightarrow> scaffolder \<Rightarrow> step list" where
  "create_license_statements e s =
     [write_file (path_join (base_dir s) ''LICENSE'') (license_text e s)]"

definition create_license :: "env \<Rightarrow> step" where
  "create_license e st = run (create_license_statements e (self st)) st"

definition create_gitignore_statements :: "scaffolder \<Rightarrow> step list" where
  "create_gitignore_statements s =
     [write_file (path_join (base_dir s) ''.gitignore'') gitignore_text]"

definition create_gitignore :: "step" where
  "create_gitignore st = run (create_gitignore_statements (self st)) st"

definition create_venv_statements :: "env \<Rightarrow> scaffolder \<Rightarrow> step list" where
  "create_venv_statements e s =
     [run_if (\<lambda>st. use_venv (self st))
        [py_print ''Creating virtual environment...'',
         venv_create_step e (path_join (base_dir s) ''venv''),
         py_print ''Virtual environment created at ./venv'',
         py_print ''Activate it with:'',
         (if os_name e = ''nt''
          then py_print (''cd '' @ project_name s @ '' && .'' @ [CHR 0x5C] @ ''venv''
                 @ [CHR 0x5C] @ ''Scripts'' @ [CHR 0x5C] @ ''activate'')
          else py_print (''cd '' @ project_name s @ '' && source venv/bin/activate''))]]"

definition create_venv :: "env \<Rightarrow> step" where
  "create_venv e st = run (create_venv_statements e (self st)) st"

definition create_makefile_statements :: "scaffolder \<Rightarrow> step list" where
  "create_makefile_statements s =
     [write_file (path_join (base_dir s) ''Makefile'') makefile_text]"

definition create_makefile :: "step" where
  "create_makefile st = run (create_makefile_statements (self st)) st"

definition scaffold_statements :: "env \<Rightarrow> scaffolder \<Rightarrow> step list" where
  "scaffold_statements e s =
     [create_directory_structure,
      create_setup_files,
      create_readme,
      create_license e,
      create_gitignore,
      create_makefile,
      run_if (\<lambda>st. use_venv (self st)) [create_venv e],
      py_print (''\<newline>Project '' @ project_name s @ '' created successfully!''),
      py_print (''Get started with: cd '' @ project_name s)]"

definition scaffold :: "env \<Rightarrow> step" where
  "scaffold e st = run (scaffold_statements e (self st)) st"

section \<open>The command line entry point\<close>

text \<open>
  The namespace that \<^verbatim>\<open>parser.parse_args()\<close> returns: the positional project name, the three
  \<^verbatim>\<open>--no-*\<close> flags and the three metadata options. \<^verbatim>\<open>main\<close> is modelled from there on.
\<close>

record args =
  arg_project_name :: string
  no_tests :: bool
  no_docs :: bool
  no_venv :: bool
  arg_author :: string
  arg_email :: string
  arg_description :: string

text \<open>
  How the process ends: \<^verbatim>\<open>main\<close> returns, \<^verbatim>\<open>sys.exit(n)\<close> is called, or an exception reaches
  the top level uncaught. The interpreter's exit status is 0, n and 1 respectively.
\<close>

datatype outcome = Returned | SysExit int | Uncaught error

fun exit_code :: "outcome \<Rightarrow> int" where
  "exit_code Returned = 0"
| "exit_code (SysExit n) = n"
| "exit_code (Uncaught err) = 1"

text \<open>The state in which \<^verbatim>\<open>main\<close> calls \<^verbatim>\<open>scaffold\<close>: the world, and the scaffolder it built.\<close>

definition entry_state :: "env \<Rightarrow> args \<Rightarrow> world \<Rightarrow> state" where
  "entry_state e a w =
     \<lparr> files = files w, stdout = stdout w,
       self = scaffolder_init e (arg_project_name a) (\<not> no_tests a) (\<not> no_docs a)
                (\<not> no_venv a) (arg_author a) (arg_email a) (arg_description a) \<rparr>"

definition main :: "env \<Rightarrow> args \<Rightarrow> world \<Rightarrow> outcome \<times> world" where
  "main e a w =
     (if path_exists (files w) (path_join (cwd e) (arg_project_name a))
      then (SysExit 1,
            w\<lparr>stdout := stdout w @ ''Error: Directory '' @ arg_project_name a
                 @ '' already exists.'' @ ''\<newline>''\<rparr>)
      else (case scaffold e (entry_state e a w) of
              Inl (err, st) \<Rightarrow> (Uncaught err, world.truncate st)
            | Inr st \<Rightarrow> (Returned, world.truncate st)))"

section \<open>Specification-level definitions\<close>

text \<open>The state a statement leaves behind, whether it raised or completed.\<close>

fun state_after :: "(error \<times> state) + state \<Rightarrow> state" where
  "state_after (Inl (err, st)) = st"
| "state_after (Inr st) = st"

text \<open>A statement keeps the object when the scaffolder is the same after it, raised or not.\<close>

definition keeps_self :: "step \<Rightarrow> bool" where
  "keeps_self f = (\<forall>st. self (state_after (f st)) = self st)"

text \<open>
  One file system extends another when it keeps every entry of it: a directory stays a
  directory and a regular file stays a regular file, each with its permission bit.
\<close>

definition extends :: "filesystem \<Rightarrow> filesystem \<Rightarrow> bool" where
  "extends fs fs' =
     (\<forall>p. case fs p of
            None \<Rightarrow> True
          | Some (Dir w) \<Rightarrow> fs' p = Some (Dir w)
          | Some (File w t) \<Rightarrow> (\<exists>t'. fs' p = Some (File w t')))"

text \<open>
  A file system agrees with another when no entry of it is in the way of the other:
  where both have an entry, both have a directory or both have a regular file, with the
  same permission bit.
\<close>

definition agrees :: "filesystem \<Rightarrow> filesystem \<Rightarrow> bool" where
  "agrees fs fs' =
     (\<forall>p. case fs p of
            None \<Rightarrow> True
          | Some (Dir w) \<Rightarrow> fs' p = None \<or> fs' p = Some (Dir w)
          | Some (File w t) \<Rightarrow> fs' p = None \<or> (\<exists>t'. fs' p = Some (File w t')))"

text \<open>
  What the theorems ask of \<^verbatim>\<open>venv.create\<close>, where they need it: whether it fails or not, it
  only extends the file system.
\<close>

definition venv_extends :: "env \<Rightarrow> bool" where
  "venv_extends e =
     (\<forall>p fs. case venv_create e p fs of
               Inl (err, fs') \<Rightarrow> extends fs fs'
             | Inr fs' \<Rightarrow> extends fs fs')"

text \<open>A statement grows the file system when it only extends it, raised or not.\<close>

definition grows :: "step \<Rightarrow> bool" where
  "grows f = (\<forall>st. extends (files st) (files (state_after (f st))))"

text \<open>
  A statement can be repeated over what exists: when it completed from a state, it also
  completes from any state with the same object whose file system extends the first
  and agrees with a file system \<open>F\<close> that extends what the first run left; and then the
  second result extends the first result and still agrees with \<open>F\<close>.
\<close>

definition repeatable :: "step \<Rightarrow> bool" where
  "repeatable f =
     (\<forall>st st' st2 F. f st = Inr st' \<longrightarrow> self st2 = self st \<longrightarrow>
        extends (files st) (files st2) \<longrightarrow> agrees (files st2) F \<longrightarrow>
        extends (files st') F \<longrightarrow>
        (\<exists>st2'. f st2 = Inr st2' \<and> extends (files st') (files st2') \<and> agrees (files st2') F))"

text \<open>The same, asked of \<^verbatim>\<open>venv.create\<close> where a theorem runs it over what exists.\<close>

definition venv_repeatable :: "env \<Rightarrow> bool" where
  "venv_repeatable e =
     (\<forall>p fs fs1 fs2 F. venv_create e p fs = Inr fs1 \<longrightarrow> extends fs fs2 \<longrightarrow>
        agrees fs2 F \<longrightarrow> extends fs1 F \<longrightarrow>
        (\<exists>fs2'. venv_create e p fs2 = Inr fs2' \<and> extends fs1 fs2' \<and> agrees fs2' F))"

text \<open>
  A plain name is one path component: not empty, without a separator, and neither of the
  names \<^verbatim>\<open>.\<close> and \<^verbatim>\<open>..\<close>. A canonical path is a list of plain names, and \<open>abs_path\<close> writes
  it as \<^verbatim>\<open>os.getcwd()\<close> would.
\<close>

definition plain :: "string \<Rightarrow> bool" where
  "plain c = (c \<noteq> [] \<and> CHR ''/'' \<notin> set c \<and> c \<noteq> ''.'' \<and> c \<noteq> ''..'')"

definition canonical :: "string list \<Rightarrow> bool" where
  "canonical p = (\<forall>c \<in> set p. plain c)"

definition abs_path :: "string list \<Rightarrow> string" where
  "abs_path p = (if p = [] then ''/'' else concat (map (\<lambda>c. CHR ''/'' # c) p))"

text \<open>A file system is well formed when every entry but the root lies in a directory.\<close>

definition wf_fs :: "filesystem \<Rightarrow> bool" where
  "wf_fs fs = (\<forall>p c. fs (p @ [c]) \<noteq> None \<longrightarrow> (\<exists>w. fs p = Some (Dir w)))"

text \<open>
  What the theorems on the generated tree ask of \<^verbatim>\<open>venv.create\<close>: when it completes, the
  directory it was given is a directory, and nothing outside that directory has changed.
\<close>

definition venv_confined :: "env \<Rightarrow> bool" where
  "venv_confined e =
     (\<forall>p fs fs' d n. venv_create e p fs = Inr fs' \<longrightarrow> locate fs p = Inr (d, n) \<longrightarrow> plain n \<longrightarrow>
        (\<exists>w. fs' (d @ [n]) = Some (Dir w))
        \<and> (\<forall>q. \<not> prefix (d @ [n]) q \<longrightarrow> fs' q = fs q))"

text \<open>
  The tree that a run is expected to leave in a fresh target directory, before the
  environment is built: each path relative to the target, with the directory or the file
  and its text, in the order the methods write them. First what
  \<^verbatim>\<open>create_directory_structure\<close> leaves, then the files of the other methods.
\<close>

definition directory_layout :: "scaffolder \<Rightarrow> (string list \<rightharpoonup> node)" where
  "directory_layout s =
     (let pkg = package_name s;
          t1 = [[] \<mapsto> Dir True,
                [pkg] \<mapsto> Dir True,
                [pkg, ''__init__.py''] \<mapsto> File True (package_init_text s)];
          t2 = (if use_tests s
                then t1([''tests''] \<mapsto> Dir True,
                        [''tests'', ''__init__.py''] \<mapsto> File True tests_init_text,
                        [''tests'', ''test_'' @ pkg @ ''.py''] \<mapsto> File True (test_module_text s))
                else t1)
      in if use_docs s
         then t2([''docs''] \<mapsto> Dir True,
                 [''docs'', ''index.md''] \<mapsto> File True (docs_index_text s))
         else t2)"

definition layout :: "env \<Rightarrow> scaffolder \<Rightarrow> (string list \<rightharpoonup> node)" where
  "layout e s =
     (directory_layout s)
       ([''setup.py''] \<mapsto> File True (setup_py_text s),
        [''pyproject.toml''] \<mapsto> File True pyproject_text,
        [''setup.cfg''] \<mapsto> File True setup_cfg_text,
        [''README.md''] \<mapsto> File True (readme_text s),
        [''LICENSE''] \<mapsto> File True (license_text e s),
        [''.gitignore''] \<mapsto> File True gitignore_text,
        [''Makefile''] \<mapsto> File True makefile_text)"

text \<open>What an entry is: a directory, or a regular file.\<close>

definition is_dir :: "filesystem \<Rightarrow> string list \<Rightarrow> bool" where
  "is_dir fs p = (\<exists>w. fs p = Some (Dir w))"

definition is_file :: "filesystem \<Rightarrow> string list \<Rightarrow> bool" where
  "is_file fs p = (\<exists>w t. fs p = Some (File w t))"

text \<open>
  The paths, relative to the target directory, that the specification expects there for
  a configuration: the package directory with its \<^verbatim>\<open>__init__.py\<close> and the seven files always,
  the tests and docs directories with their files and the environment directory by flag.
\<close>

definition expected_paths :: "scaffolder \<Rightarrow> string list set" where
  "expected_paths s =
     {[package_name s], [package_name s, ''__init__.py''], [''setup.py''], [''pyproject.toml''],
      [''setup.cfg''], [''README.md''], [''LICENSE''], [''.gitignore''], [''Makefile'']}
     \<union> (if use_tests s
         then {[''tests''], [''tests'', ''__init__.py''],
               [''tests'', ''test_'' @ package_name s @ ''.py'']}
         else {})
     \<union> (if use_docs s then {[''docs''], [''docs'', ''index.md'']} else {})
     \<union> (if use_venv s then {[''venv'']} else {})"

text \<open>
  A small world for the examples: the directory \<^verbatim>\<open>/w\<close> is the working directory, and the
  environment builder only creates its directory.
\<close>

definition example_env :: env where
  "example_env =
     \<lparr> cwd = ''/w'', year = 2024, os_name = ''posix'',
       venv_create = (\<lambda>p fs. makedirs fs p) \<rparr>"

definition example_world :: world where
  "example_world = \<lparr> files = [[] \<mapsto> Dir True, [''w''] \<mapsto> Dir True], stdout = [] \<rparr>"

definition example_args :: args where
  "example_args =
     \<lparr> arg_project_name = ''my-proj'', no_tests = False, no_docs = False, no_venv = False,
       arg_author = ''Ada'', arg_email = ''ada@example.org'',
       arg_description = ''A Python package'' \<rparr>"

definition minimal_args :: args where
  "minimal_args =
     \<lparr> arg_project_name = ''p'', no_tests = True, no_docs = True, no_venv = True,
       arg_author = ''Ada'', arg_email = ''ada@example.org'',
       arg_description = ''A Python package'' \<rparr>"

text \<open>A project named venv, created without the environment.\<close>

definition venv_named_args :: args where
  "venv_named_args =
     \<lparr> arg_project_name = ''venv'', no_tests = True, no_docs = True, no_venv = True,
       arg_author = ''Ada'', arg_email = ''ada@example.org'',
       arg_description = ''A Python package'' \<rparr>"




text \<open>The lines of a text.\<close>

definition text_lines :: "string \<Rightarrow> string list" where
  "text_lines t = split_sep CHR 0x0A t"

text \<open>The same world with a working directory the process may not write to.\<close>

definition readonly_world :: world where
  "readonly_world = \<lparr> files = [[] \<mapsto> Dir True, [''w''] \<mapsto> Dir False], stdout = [] \<rparr>"

text \<open>A world where the target directory exists and is empty.\<close>

definition prepared_world :: world where
  "prepared_world =
     \<lparr> files = [[] \<mapsto> Dir True, [''w''] \<mapsto> Dir True, [''w'', ''p''] \<mapsto> Dir True],
       stdout = [] \<rparr>"

text \<open>A world where the target directory exists and holds a directory named README.md.\<close>

definition occupied_world :: world where
  "occupied_world =
     \<lparr> files = [[] \<mapsto> Dir True, [''w''] \<mapsto> Dir True, [''w'', ''p''] \<mapsto> Dir True,
                [''w'', ''p'', ''README.md''] \<mapsto> Dir True],
       stdout = [] \<rparr>"


section \<open>Package name derivation\<close>

lemma char_lower_underscore: "char_lower CHR ''_'' = CHR ''_''"
  by (simp add: char_lower_def is_upper_def)






section \<open>Blocks of statements\<close>


lemma run_append:
  "run (xs @ ys) st = (case run xs st of Inl x \<Rightarrow> Inl x | Inr st' \<Rightarrow> run ys st')"
  by (induction xs arbitrary: st) (auto split: sum.splits)

lemma keeps_self_Nil: "keeps_self (run [])"
  by (simp add: keeps_self_def)

lemma keeps_self_Cons: "keeps_self f \<Longrightarrow> keeps_self (run fs) \<Longrightarrow> keeps_self (run (f # fs))"
  unfolding keeps_self_def
proof
  fix st
  assume f: "\<forall>st. self (state_after (f st)) = self st"
    and r: "\<forall>st. self (state_after (run fs st)) = self st"
  show "self (state_after (run (f # fs) st)) = self st"
  proof (cases "f st")
    case (Inl x)
    with f [rule_format, of st] show ?thesis by simp
  next
    case (Inr st')
    with f [rule_format, of st] r [rule_format, of st'] show ?thesis by simp
  qed
qed

lemma keeps_self_run_if: "keeps_self (run fs) \<Longrightarrow> keeps_self (run_if c fs)"
  by (simp add: keeps_self_def run_if_def)

lemma keeps_self_if: "keeps_self f \<Longrightarrow> keeps_self g \<Longrightarrow> keeps_self (if b then f else g)"
  by simp

lemma keeps_self_py_print: "keeps_self (py_print t)"
  by (simp add: keeps_self_def py_print_def)

lemma keeps_self_os_makedirs: "keeps_self (os_makedirs p)"
  by (auto simp: keeps_self_def os_makedirs_def split: sum.splits prod.splits)

lemma keeps_self_write_file: "keeps_self (write_file p t)"
  by (auto simp: keeps_self_def write_file_def split: sum.splits prod.splits)

lemma keeps_self_venv_create_step: "keeps_self (venv_create_step e p)"
  by (auto simp: keeps_self_def venv_create_step_def split: sum.splits prod.splits)

lemma keeps_self_method:
  "(\<And>s. keeps_self (run (body s))) \<Longrightarrow> keeps_self (\<lambda>st. run (body (self st)) st)"
  by (simp add: keeps_self_def)

lemmas keeps_self_intros =
  keeps_self_Nil keeps_self_Cons keeps_self_run_if keeps_self_if keeps_self_py_print
  keeps_self_os_makedirs keeps_self_write_file keeps_self_venv_create_step

lemma keeps_self_create_directory_structure: "keeps_self create_directory_structure"
proof -
  have "keeps_self (run (create_directory_structure_statements s))" for s
    unfolding create_directory_structure_statements_def Let_def by (intro keeps_self_intros)
  from keeps_self_method [of create_directory_structure_statements, OF this]
  show ?thesis by (simp add: create_directory_structure_def [abs_def])
qed

section \<open>Extending the file system\<close>


lemma extends_refl: "extends fs fs"
  by (auto simp: extends_def split: option.splits node.splits)

lemma extends_trans: "extends a b \<Longrightarrow> extends b c \<Longrightarrow> extends a c"
  unfolding extends_def
proof
  fix p
  assume ab: "\<forall>p. case a p of None \<Rightarrow> True | Some (Dir w) \<Rightarrow> b p = Some (Dir w)
                 | Some (File w t) \<Rightarrow> \<exists>t'. b p = Some (File w t')"
    and bc: "\<forall>p. case b p of None \<Rightarrow> True | Some (Dir w) \<Rightarrow> c p = Some (Dir w)
                 | Some (File w t) \<Rightarrow> \<exists>t'. c p = Some (File w t')"
  from ab [rule_format, of p] bc [rule_format, of p]
  show "case a p of None \<Rightarrow> True | Some (Dir w) \<Rightarrow> c p = Some (Dir w)
        | Some (File w t) \<Rightarrow> \<exists>t'. c p = Some (File w t')"
    by (auto split: option.splits node.splits)
qed

lemma extends_dirD: "extends fs fs' \<Longrightarrow> fs p = Some (Dir w) \<Longrightarrow> fs' p = Some (Dir w)"
  by (auto simp: extends_def dest!: spec [where x = p])

lemma extends_fileD: "extends fs fs' \<Longrightarrow> fs p = Some (File w t) \<Longrightarrow> \<exists>t'. fs' p = Some (File w t')"
  by (auto simp: extends_def dest!: spec [where x = p])

lemma extends_someD: "extends fs fs' \<Longrightarrow> fs p \<noteq> None \<Longrightarrow> fs' p \<noteq> None"
proof -
  assume e: "extends fs fs'" and "fs p \<noteq> None"
  then obtain nd where nd: "fs p = Some nd" by auto
  show ?thesis
  proof (cases nd)
    case (Dir w)
    with extends_dirD [OF e] nd show ?thesis by fastforce
  next
    case (File w t)
    with extends_fileD [OF e] nd show ?thesis by fastforce
  qed
qed

lemma extends_new: "fs p = None \<Longrightarrow> extends fs (fs(p \<mapsto> v))"
  by (auto simp: extends_def split: option.splits node.splits)

lemma extends_rewrite: "fs p = Some (File w t) \<Longrightarrow> extends fs (fs(p \<mapsto> File w t'))"
  by (auto simp: extends_def split: option.splits node.splits)

lemma walk_dir_extends:
  "extends fs fs' \<Longrightarrow> walk_dir fs cur cs = Inr d \<Longrightarrow> walk_dir fs' cur cs = Inr d"
proof (induction fs cur cs rule: walk_dir.induct)
  case (1 fs cur)
  then show ?case by simp
next
  case (2 fs cur c cs)
  show ?case
  proof (cases "c = [] \<or> c = ''.''")
    case True
    with 2 show ?thesis by simp
  next
    case nd: False
    show ?thesis
    proof (cases "c = ''..''")
      case True
      with nd 2 show ?thesis by simp
    next
      case False
      from "2.prems"(2) nd False obtain w where w: "fs (cur @ [c]) = Some (Dir w)"
        and rest: "walk_dir fs (cur @ [c]) cs = Inr d"
        by (auto split: option.splits node.splits)
      from extends_dirD [OF "2.prems"(1) w] obtain w' where w': "fs' (cur @ [c]) = Some (Dir w')"
        by blast
      from "2.IH"(3) nd False w "2.prems"(1) rest have "walk_dir fs' (cur @ [c]) cs = Inr d" by simp
      with nd False w' show ?thesis by simp
    qed
  qed
qed

lemma locate_extends: "extends fs fs' \<Longrightarrow> locate fs p = Inr x \<Longrightarrow> locate fs' p = Inr x"
  by (auto simp: locate_def split: if_splits sum.splits dest: walk_dir_extends)

lemma path_exists_extends:
  assumes "extends fs fs'" and "path_exists fs p"
  shows "path_exists fs' p"
proof -
  from assms(2) obtain d n where l: "locate fs p = Inr (d, n)"
    and n: "n = [] \<or> n = ''.'' \<or> n = ''..'' \<or> fs (d @ [n]) \<noteq> None"
    by (auto simp: path_exists_def split: sum.splits prod.splits if_splits)
  from locate_extends [OF assms(1) l] n extends_someD [OF assms(1), of "d @ [n]"]
  show ?thesis by (auto simp: path_exists_def)
qed

lemma mkdirs_extends: "extends fs (case mkdirs fs cur cs of Inl (err, fs') \<Rightarrow> fs' | Inr fs' \<Rightarrow> fs')"
proof (induction fs cur cs rule: mkdirs.induct)
  case (1 fs cur)
  then show ?case by (simp add: extends_refl)
next
  case (2 fs cur c cs)
  show ?case
  proof (cases "c = [] \<or> c = ''.''")
    case True
    with "2.IH"(1) show ?thesis by simp
  next
    case nd: False
    show ?thesis
    proof (cases "c = ''..''")
      case True
      with nd "2.IH"(2) show ?thesis by simp
    next
      case False
      show ?thesis
      proof (cases "fs (cur @ [c])")
        case None
        show ?thesis
        proof (cases "fs cur = Some (Dir True)")
          case True
          note ih = "2.IH"(3) [OF nd False None True refl refl, unfolded fun_upd_def [symmetric]]
          have "extends (fs(cur @ [c] \<mapsto> Dir True))
                  (case mkdirs (fs(cur @ [c] \<mapsto> Dir True)) (cur @ [c]) cs of
                     Inl (err, fs') \<Rightarrow> fs' | Inr fs' \<Rightarrow> fs')"
            using ih by (simp add: fun_upd_def)
          from extends_trans [OF extends_new [of fs "cur @ [c]" "Dir True", OF None] this]
          show ?thesis using nd False None True by simp
        next
          case nt: False
          then show ?thesis using nd False None
            by (auto simp: extends_refl split: option.splits node.splits bool.splits)
        qed
      next
        case (Some nd')
        show ?thesis
        proof (cases nd')
          case (Dir w)
          with "2.IH"(4) [OF nd False Some] nd False Some show ?thesis by simp
        next
          case (File w t)
          with nd False Some show ?thesis by (simp add: extends_refl)
        qed
      qed
    qed
  qed
qed

lemma mkdirs_extends_Inr: "mkdirs fs cur cs = Inr fs' \<Longrightarrow> extends fs fs'"
  using mkdirs_extends [of fs cur cs] by simp

lemma mkdirs_walk: "mkdirs fs cur cs = Inr fs' \<Longrightarrow> \<exists>r. walk_dir fs' cur cs = Inr r"
proof (induction fs cur cs rule: mkdirs.induct)
  case (1 fs cur)
  then show ?case by simp
next
  case (2 fs cur c cs)
  show ?case
  proof (cases "c = [] \<or> c = ''.''")
    case True
    with 2 show ?thesis by simp
  next
    case nd: False
    show ?thesis
    proof (cases "c = ''..''")
      case True
      with nd 2 show ?thesis by simp
    next
      case False
      show ?thesis
      proof (cases "fs (cur @ [c])")
        case None
        with "2.prems" nd False have wr: "fs cur = Some (Dir True)"
          and rest: "mkdirs (fs(cur @ [c] \<mapsto> Dir True)) (cur @ [c]) cs = Inr fs'"
          by (auto split: option.splits node.splits bool.splits)
        from "2.IH"(3) [OF nd False None wr refl refl rest]
        obtain r where r: "walk_dir fs' (cur @ [c]) cs = Inr r" by auto
        from extends_dirD [OF mkdirs_extends_Inr [OF rest], of "cur @ [c]" True]
        obtain w' where "fs' (cur @ [c]) = Some (Dir w')" by auto
        with r nd False show ?thesis by simp
      next
        case (Some nd')
        with "2.prems" nd False obtain w where w: "nd' = Dir w"
          and rest: "mkdirs fs (cur @ [c]) cs = Inr fs'"
          by (auto split: node.splits)
        from "2.IH"(4) [OF nd False Some w rest]
        obtain r where r: "walk_dir fs' (cur @ [c]) cs = Inr r" by auto
        from extends_dirD [OF mkdirs_extends_Inr [OF rest], of "cur @ [c]" w] Some w
        obtain w' where "fs' (cur @ [c]) = Some (Dir w')" by auto
        with r nd False show ?thesis by simp
      qed
    qed
  qed
qed

lemma walk_dir_snoc_exists:
  "walk_dir fs cur (cs @ [n]) = Inr r \<Longrightarrow>
     \<exists>d. walk_dir fs cur cs = Inr d \<and> (n = [] \<or> n = ''.'' \<or> n = ''..'' \<or> fs (d @ [n]) \<noteq> None)"
proof (induction fs cur cs rule: walk_dir.induct)
  case (1 fs cur)
  then show ?case by (auto split: if_splits option.splits node.splits)
next
  case (2 fs cur c cs)
  then show ?case by (auto split: if_splits option.splits node.splits)
qed

lemma split_sep_nonempty: "split_sep sep s \<noteq> []"
  by (induction s) (auto split: list.splits)

lemma components_nonempty: "components p \<noteq> []"
  by (simp add: components_def split_sep_nonempty)

lemma makedirs_exists: "makedirs fs p = Inr fs' \<Longrightarrow> path_exists fs' p"
proof -
  assume m: "makedirs fs p = Inr fs'"
  then have p: "p \<noteq> []" and mk: "mkdirs fs [] (components p) = Inr fs'"
    by (auto simp: makedirs_def split: if_splits)
  from mkdirs_walk [OF mk] obtain r where r: "walk_dir fs' [] (components p) = Inr r" ..
  have "components p = butlast (components p) @ [last (components p)]"
    using components_nonempty by simp
  with r have "walk_dir fs' [] (butlast (components p) @ [last (components p)]) = Inr r" by simp
  from walk_dir_snoc_exists [OF this] p show ?thesis
    by (auto simp: path_exists_def locate_def)
qed

lemma open_write_extends: "open_write fs p t = Inr fs' \<Longrightarrow> extends fs fs'"
  by (auto simp: open_write_def split: sum.splits prod.splits if_splits option.splits node.splits bool.splits
      intro: extends_new extends_rewrite)

section \<open>Statements only extend the file system\<close>


lemma growsD: "grows f \<Longrightarrow> f st = Inr st' \<Longrightarrow> extends (files st) (files st')"
  by (auto simp: grows_def dest!: spec [where x = st])

lemma grows_Nil: "grows (run [])"
  by (simp add: grows_def extends_refl)

lemma grows_Cons: "grows f \<Longrightarrow> grows (run fs) \<Longrightarrow> grows (run (f # fs))"
  unfolding grows_def
proof
  fix st
  assume f: "\<forall>st. extends (files st) (files (state_after (f st)))"
    and r: "\<forall>st. extends (files st) (files (state_after (run fs st)))"
  show "extends (files st) (files (state_after (run (f # fs) st)))"
  proof (cases "f st")
    case (Inl x)
    with f [rule_format, of st] show ?thesis by simp
  next
    case (Inr st')
    with f [rule_format, of st] r [rule_format, of st'] show ?thesis
      by (auto intro: extends_trans)
  qed
qed

lemma grows_run_if: "grows (run fs) \<Longrightarrow> grows (run_if c fs)"
  by (simp add: grows_def run_if_def extends_refl)

lemma grows_if: "grows f \<Longrightarrow> grows g \<Longrightarrow> grows (if b then f else g)"
  by simp

lemma grows_py_print: "grows (py_print t)"
  by (simp add: grows_def py_print_def extends_refl)

lemma grows_os_makedirs: "grows (os_makedirs p)"
  unfolding grows_def
proof
  fix st
  show "extends (files st) (files (state_after (os_makedirs p st)))"
  proof (cases "p = []")
    case True
    then show ?thesis by (simp add: os_makedirs_def makedirs_def extends_refl)
  next
    case False
    with mkdirs_extends [of "files st" "[]" "components p"] show ?thesis
      by (auto simp: os_makedirs_def makedirs_def split: sum.splits prod.splits)
  qed
qed

lemma grows_write_file: "grows (write_file p t)"
  by (auto simp: grows_def write_file_def extends_refl split: sum.splits dest: open_write_extends)

lemma grows_venv_create_step: "venv_extends e \<Longrightarrow> grows (venv_create_step e p)"
  unfolding grows_def venv_extends_def
proof
  fix st :: state
  assume "\<forall>p fs. case venv_create e p fs of Inl (err, fs') \<Rightarrow> extends fs fs' | Inr fs' \<Rightarrow> extends fs fs'"
  then have "case venv_create e p (files st) of Inl (err, fs') \<Rightarrow> extends (files st) fs'
             | Inr fs' \<Rightarrow> extends (files st) fs'" by blast
  then
  show "extends (files st) (files (state_after (venv_create_step e p st)))"
    by (auto simp: venv_create_step_def split: sum.splits prod.splits)
qed

lemma grows_method:
  "(\<And>s. grows (run (body s))) \<Longrightarrow> grows (\<lambda>st. run (body (self st)) st)"
  by (simp add: grows_def)

lemmas grows_intros =
  grows_Nil grows_Cons grows_run_if grows_if grows_py_print grows_os_makedirs grows_write_file

lemma grows_create_directory_structure: "grows create_directory_structure"
proof -
  have "grows (run (create_directory_structure_statements s))" for s
    unfolding create_directory_structure_statements_def Let_def by (intro grows_intros)
  from grows_method [of create_directory_structure_statements, OF this]
  show ?thesis by (simp add: create_directory_structure_def [abs_def])
qed

lemma grows_create_setup_files: "grows create_setup_files"
proof -
  have "grows (run (create_setup_files_statements s))" for s
    unfolding create_setup_files_statements_def by (intro grows_intros)
  from grows_method [of create_setup_files_statements, OF this]
  show ?thesis by (simp add: create_setup_files_def [abs_def])
qed

lemma grows_create_readme: "grows create_readme"
proof -
  have "grows (run (create_readme_statements s))" for s
    unfolding create_readme_statements_def by (intro grows_intros)
  from grows_method [of create_readme_statements, OF this]
  show ?thesis by (simp add: create_readme_def [abs_def])
qed

lemma grows_create_license: "grows (create_license e)"
proof -
  have "grows (run (create_license_statements e s))" for s
    unfolding create_license_statements_def by (intro grows_intros)
  from grows_method [of "create_license_statements e", OF this]
  show ?thesis by (simp add: create_license_def [abs_def])
qed

lemma grows_create_gitignore: "grows create_gitignore"
proof -
  have "grows (run (create_gitignore_statements s))" for s
    unfolding create_gitignore_statements_def by (intro grows_intros)
  from grows_method [of create_gitignore_statements, OF this]
  show ?thesis by (simp add: create_gitignore_def [abs_def])
qed

lemma grows_create_makefile: "grows create_makefile"
proof -
  have "grows (run (create_makefile_statements s))" for s
    unfolding create_makefile_statements_def by (intro grows_intros)
  from grows_method [of create_makefile_statements, OF this]
  show ?thesis by (simp add: create_makefile_def [abs_def])
qed

lemma grows_create_venv: "venv_extends e \<Longrightarrow> grows (create_venv e)"
proof -
  assume v: "venv_extends e"
  have "grows (run (create_venv_statements e s))" for s
    unfolding create_venv_statements_def
    by (intro grows_intros grows_venv_create_step [OF v])
  from grows_method [of "create_venv_statements e", OF this]
  show ?thesis by (simp add: create_venv_def [abs_def])
qed

lemma grows_scaffold_tail:
  "venv_extends e \<Longrightarrow>
   grows (run [create_setup_files, create_readme, create_license e, create_gitignore,
     create_makefile, run_if (\<lambda>st. use_venv (self st)) [create_venv e], py_print a, py_print b])"
  by (intro grows_intros grows_create_setup_files grows_create_readme grows_create_license
      grows_create_gitignore grows_create_makefile grows_create_venv)

lemma grows_cds_tail:
  "grows (run (drop 2 (create_directory_structure_statements s)))"
  unfolding create_directory_structure_statements_def Let_def
  by (simp del: run.simps) (intro grows_intros)

lemma scaffold_makes_base_dir:
  assumes v: "venv_extends e" and ok: "scaffold e st = Inr st'"
  shows "path_exists (files st') (base_dir (self st))"
proof -
  let ?s = "self st"
  from ok obtain st1 where c1: "create_directory_structure st = Inr st1"
    and r1: "run (tl (scaffold_statements e ?s)) st1 = Inr st'"
    by (auto simp: scaffold_def scaffold_statements_def split: sum.splits)
  have cds: "create_directory_structure_statements ?s =
      py_print (''Creating project: '' @ project_name ?s) # os_makedirs (base_dir ?s) #
      drop 2 (create_directory_structure_statements ?s)"
    by (simp add: create_directory_structure_statements_def Let_def)
  from c1 obtain st2 st3 where p: "py_print (''Creating project: '' @ project_name ?s) st = Inr st2"
    and m: "os_makedirs (base_dir ?s) st2 = Inr st3"
    and r2: "run (drop 2 (create_directory_structure_statements ?s)) st3 = Inr st1"
    unfolding create_directory_structure_def by (subst (asm) cds) (auto split: sum.splits)
  from m have "path_exists (files st3) (base_dir ?s)"
    by (auto simp: os_makedirs_def split: sum.splits prod.splits dest: makedirs_exists)
  moreover from growsD [OF grows_cds_tail r2] have "extends (files st3) (files st1)" .
  moreover from r1 growsD [OF grows_scaffold_tail [OF v]] have "extends (files st1) (files st')"
    by (simp add: scaffold_statements_def)
  ultimately show ?thesis by (blast intro: path_exists_extends)
qed

lemma main_existing:
  "path_exists (files w) (path_join (cwd e) (arg_project_name a)) \<Longrightarrow>
   main e a w = (SysExit 1,
     w\<lparr>stdout := stdout w @ ''Error: Directory '' @ arg_project_name a @ '' already exists.\<newline>''\<rparr>)"
  by (simp add: main_def)

lemma main_fresh:
  "\<not> path_exists (files w) (path_join (cwd e) (arg_project_name a)) \<Longrightarrow>
   main e a w = (case scaffold e (entry_state e a w) of
                   Inl (err, st) \<Rightarrow> (Uncaught err, world.truncate st)
                 | Inr st \<Rightarrow> (Returned, world.truncate st))"
  by (simp add: main_def)

lemma main_returned_iff:
  "fst (main e a w) = Returned \<longleftrightarrow>
     \<not> path_exists (files w) (path_join (cwd e) (arg_project_name a))
     \<and> (\<exists>st. scaffold e (entry_state e a w) = Inr st)"
  by (cases "path_exists (files w) (path_join (cwd e) (arg_project_name a))")
     (auto simp: main_existing main_fresh split: sum.splits prod.splits)

section \<open>The object is never changed\<close>

lemma keeps_self_create_setup_files: "keeps_self create_setup_files"
proof -
  have "keeps_self (run (create_setup_files_statements s))" for s
    unfolding create_setup_files_statements_def by (intro keeps_self_intros)
  from keeps_self_method [of create_setup_files_statements, OF this]
  show ?thesis by (simp add: create_setup_files_def [abs_def])
qed

lemma keeps_self_create_readme: "keeps_self create_readme"
proof -
  have "keeps_self (run (create_readme_statements s))" for s
    unfolding create_readme_statements_def by (intro keeps_self_intros)
  from keeps_self_method [of create_readme_statements, OF this]
  show ?thesis by (simp add: create_readme_def [abs_def])
qed

lemma keeps_self_create_license: "keeps_self (create_license e)"
proof -
  have "keeps_self (run (create_license_statements e s))" for s
    unfolding create_license_statements_def by (intro keeps_self_intros)
  from keeps_self_method [of "create_license_statements e", OF this]
  show ?thesis by (simp add: create_license_def [abs_def])
qed

lemma keeps_self_create_gitignore: "keeps_self create_gitignore"
proof -
  have "keeps_self (run (create_gitignore_statements s))" for s
    unfolding create_gitignore_statements_def by (intro keeps_self_intros)
  from keeps_self_method [of create_gitignore_statements, OF this]
  show ?thesis by (simp add: create_gitignore_def [abs_def])
qed

lemma keeps_self_create_venv: "keeps_self (create_venv e)"
proof -
  have "keeps_self (run (create_venv_statements e s))" for s
    unfolding create_venv_statements_def by (intro keeps_self_intros)
  from keeps_self_method [of "create_venv_statements e", OF this]
  show ?thesis by (simp add: create_venv_def [abs_def])
qed

lemma keeps_self_create_makefile: "keeps_self create_makefile"
proof -
  have "keeps_self (run (create_makefile_statements s))" for s
    unfolding create_makefile_statements_def by (intro keeps_self_intros)
  from keeps_self_method [of create_makefile_statements, OF this]
  show ?thesis by (simp add: create_makefile_def [abs_def])
qed

lemma keeps_self_scaffold: "keeps_self (scaffold e)"
proof -
  have "keeps_self (run (scaffold_statements e s))" for s
    unfolding scaffold_statements_def
    by (intro keeps_self_intros keeps_self_create_directory_structure
        keeps_self_create_setup_files keeps_self_create_readme keeps_self_create_license
        keeps_self_create_gitignore keeps_self_create_makefile keeps_self_create_venv)
  from keeps_self_method [of "scaffold_statements e", OF this]
  show ?thesis by (simp add: scaffold_def [abs_def])
qed

lemma keeps_selfD: "keeps_self f \<Longrightarrow> self (state_after (f st)) = self st"
  by (simp add: keeps_self_def)

text \<open>
  C9: the fields of the scaffolder are set by the constructor and by nothing else. Each
  of the eight methods, run from any state and whether it completes or raises, leaves a
  state whose scaffolder is the one it was called on, so every field (project name,
  package name, the three flags, author, email, description, base directory) is
  unchanged.
\<close>

theorem methods_keep_configuration:
  "self (state_after (create_directory_structure st)) = self st
   \<and> self (state_after (create_setup_files st)) = self st
   \<and> self (state_after (create_readme st)) = self st
   \<and> self (state_after (create_license e st)) = self st
   \<and> self (state_after (create_gitignore st)) = self st
   \<and> self (state_after (create_venv e st)) = self st
   \<and> self (state_after (create_makefile st)) = self st
   \<and> self (state_after (scaffold e st)) = self st"
  by (intro conjI keeps_selfD keeps_self_create_directory_structure
      keeps_self_create_setup_files keeps_self_create_readme keeps_self_create_license
      keeps_self_create_gitignore keeps_self_create_venv keeps_self_create_makefile
      keeps_self_scaffold)

section \<open>The entry point: exit codes and errors\<close>

lemmas model_defs =
  main_def entry_state_def path_exists_def locate_def components_def path_join_def
  scaffolder_init_def scaffold_def scaffold_statements_def
  create_directory_structure_def create_directory_structure_statements_def
  create_setup_files_def create_setup_files_statements_def
  create_readme_def create_readme_statements_def
  create_license_def create_license_statements_def
  create_gitignore_def create_gitignore_statements_def
  create_makefile_def create_makefile_statements_def
  create_venv_def create_venv_statements_def
  run_if_def py_print_def os_makedirs_def write_file_def venv_create_step_def
  makedirs_def open_write_def str_lower_def str_replace_def char_lower_def is_upper_def
  Let_def

lemma minimal_run_returns: "fst (main example_env minimal_args example_world) = Returned"
  by (simp add: model_defs example_env_def example_world_def minimal_args_def)

lemma example_venv_extends: "venv_extends example_env"
  unfolding venv_extends_def
proof (intro allI)
  fix p fs
  show "case venv_create example_env p fs of
          Inl (err, fs') \<Rightarrow> extends fs fs' | Inr fs' \<Rightarrow> extends fs fs'"
    using mkdirs_extends [of fs "[]" "components p"]
    by (auto simp: example_env_def makedirs_def extends_refl split: sum.splits prod.splits)
qed

text \<open>
  C1: when the path of the project name, joined to the working directory, exists, \<^verbatim>\<open>main\<close>
  ends with \<^verbatim>\<open>sys.exit(1)\<close>, exit status 1, and the file system is as it was: no directory
  was created and no file written. In particular a second run after a run that
  returned is rejected so, since the first run created the directory (the environment
  builder, which is not part of the program, is taken to only extend the file system).
\<close>

theorem existing_target_rejected:
  "(path_exists (files w) (path_join (cwd e) (arg_project_name a)) \<longrightarrow>
      fst (main e a w) = SysExit 1 \<and> exit_code (fst (main e a w)) = 1
      \<and> files (snd (main e a w)) = files w)
   \<and> (venv_extends e \<longrightarrow> fst (main e a w) = Returned \<longrightarrow>
      fst (main e a (snd (main e a w))) = SysExit 1
      \<and> exit_code (fst (main e a (snd (main e a w)))) = 1
      \<and> files (snd (main e a (snd (main e a w)))) = files (snd (main e a w)))"
proof (intro conjI impI)
  assume v: "venv_extends e" and r: "fst (main e a w) = Returned"
  from r obtain st where fresh: "\<not> path_exists (files w) (path_join (cwd e) (arg_project_name a))"
    and ok: "scaffold e (entry_state e a w) = Inr st"
    by (auto simp: main_returned_iff)
  from scaffold_makes_base_dir [OF v ok]
  have "path_exists (files st) (path_join (cwd e) (arg_project_name a))"
    by (simp add: entry_state_def scaffolder_init_def)
  moreover from fresh ok have "snd (main e a w) = world.truncate st"
    by (simp add: main_fresh)
  ultimately have ex: "path_exists (files (snd (main e a w))) (path_join (cwd e) (arg_project_name a))"
    by (simp add: world.defs)
  from main_existing [OF ex]
  show "fst (main e a (snd (main e a w))) = SysExit 1"
    and "exit_code (fst (main e a (snd (main e a w)))) = 1"
    and "files (snd (main e a (snd (main e a w)))) = files (snd (main e a w))"
    by simp_all
qed (simp_all add: main_existing)

theorem existing_target_rejected_witness:
  "venv_extends example_env
   \<and> fst (main example_env minimal_args example_world) = Returned
   \<and> path_exists (files (snd (main example_env minimal_args example_world)))
       (path_join (cwd example_env) (arg_project_name minimal_args))
   \<and> fst (main example_env minimal_args (snd (main example_env minimal_args example_world)))
       = SysExit 1
   \<and> exit_code
        (fst (main example_env minimal_args (snd (main example_env minimal_args example_world))))
       = 1
   \<and> files (snd (main example_env minimal_args
         (snd (main example_env minimal_args example_world))))
       = files (snd (main example_env minimal_args example_world))"
proof -
  note t = existing_target_rejected [of _ example_env minimal_args]
  from t [of example_world] example_venv_extends minimal_run_returns
  have second: "fst (main example_env minimal_args
        (snd (main example_env minimal_args example_world))) = SysExit 1"
    "files (snd (main example_env minimal_args
         (snd (main example_env minimal_args example_world))))
       = files (snd (main example_env minimal_args example_world))"
    by simp_all
  have ex: "path_exists (files (snd (main example_env minimal_args example_world)))
       (path_join (cwd example_env) (arg_project_name minimal_args))"
  proof (rule ccontr)
    assume "\<not> ?thesis"
    from main_fresh [OF this] second(1) show False
      by (auto split: sum.splits prod.splits)
  qed
  from t [of "snd (main example_env minimal_args example_world)"] ex second
    example_venv_extends minimal_run_returns
  show ?thesis by simp
qed

text \<open>
  C8: when the target does not exist and every statement of \<^verbatim>\<open>scaffold\<close> completes (no
  file-system operation raises), \<^verbatim>\<open>main\<close> returns, the world is the one \<^verbatim>\<open>scaffold\<close> left,
  and the exit status is 0.
\<close>

theorem fresh_success_exit_zero:
  "\<not> path_exists (files w) (path_join (cwd e) (arg_project_name a)) \<Longrightarrow>
   scaffold e (entry_state e a w) = Inr st \<Longrightarrow>
   main e a w = (Returned, world.truncate st) \<and> exit_code (fst (main e a w)) = 0"
  by (simp add: main_fresh)

theorem fresh_success_exit_zero_witness:
  "\<not> path_exists (files example_world)
       (path_join (cwd example_env) (arg_project_name minimal_args))
   \<and> exit_code (fst (main example_env minimal_args example_world)) = 0"
proof -
  from minimal_run_returns [unfolded main_returned_iff]
  obtain st where fresh: "\<not> path_exists (files example_world)
       (path_join (cwd example_env) (arg_project_name minimal_args))"
    and ok: "scaffold example_env (entry_state example_env minimal_args example_world) = Inr st"
    by blast
  from fresh_success_exit_zero [OF fresh ok] fresh show ?thesis by simp
qed

text \<open>
  C6: the existing target is the only error \<^verbatim>\<open>main\<close> detects and reports. When the target
  does not exist, \<^verbatim>\<open>main\<close> never ends with \<^verbatim>\<open>sys.exit\<close>; and whenever a statement of
  \<^verbatim>\<open>scaffold\<close> raises after the statements before it completed, that error reaches the
  top level uncaught and the world is the one the failing statement left: the later
  statements are not run, nothing is retried and nothing is undone. The same holds
  inside every block of statements, so a failing directory creation or file write
  aborts its method with that error.
\<close>

theorem errors_propagate_uncaught:
  "\<not> path_exists (files w) (path_join (cwd e) (arg_project_name a)) \<Longrightarrow>
   (\<forall>n. fst (main e a w) \<noteq> SysExit n)
   \<and> (\<forall>pre f post st1 err st2.
         scaffold_statements e (self (entry_state e a w)) = pre @ f # post \<longrightarrow>
         run pre (entry_state e a w) = Inr st1 \<longrightarrow> f st1 = Inl (err, st2) \<longrightarrow>
         main e a w = (Uncaught err, world.truncate st2)
         \<and> exit_code (fst (main e a w)) = 1)
   \<and> (\<forall>stmts pre g post st st1 x.
         stmts = pre @ g # post \<longrightarrow> run pre st = Inr st1 \<longrightarrow> g st1 = Inl x \<longrightarrow>
         run stmts st = Inl x)"
proof (intro conjI allI impI)
  assume fresh: "\<not> path_exists (files w) (path_join (cwd e) (arg_project_name a))"
  show "fst (main e a w) \<noteq> SysExit n" for n
    using fresh by (auto simp: main_fresh split: sum.splits prod.splits)
  show "run stmts st = Inl x"
    if "stmts = pre @ g # post" "run pre st = Inr st1" "g st1 = Inl x"
    for stmts pre g post st st1 x
    using that by (simp add: run_append)
  fix pre f post st1 err st2
  assume "scaffold_statements e (self (entry_state e a w)) = pre @ f # post"
    and "run pre (entry_state e a w) = Inr st1" and "f st1 = Inl (err, st2)"
  then have "scaffold e (entry_state e a w) = Inl (err, st2)"
    by (simp add: scaffold_def run_append)
  with fresh show "main e a w = (Uncaught err, world.truncate st2)"
    and "exit_code (fst (main e a w)) = 1"
    by (simp_all add: main_fresh)
qed

lemma readonly_fresh:
  "\<not> path_exists (files readonly_world)
       (path_join (cwd example_env) (arg_project_name minimal_args))"
  by (simp add: path_exists_def locate_def components_def path_join_def example_env_def
      readonly_world_def minimal_args_def)

lemma readonly_fails:
  "create_directory_structure (entry_state example_env minimal_args readonly_world)
     = Inl (PermissionError,
            (entry_state example_env minimal_args readonly_world)
              \<lparr>stdout := ''Creating project: p\<newline>''\<rparr>)"
  by (simp add: model_defs example_env_def readonly_world_def minimal_args_def)

theorem errors_propagate_uncaught_witness:
  "\<not> path_exists (files readonly_world)
       (path_join (cwd example_env) (arg_project_name minimal_args))
   \<and> main example_env minimal_args readonly_world
       = (Uncaught PermissionError,
          \<lparr>files = files readonly_world, stdout = ''Creating project: p\<newline>''\<rparr>)
   \<and> exit_code (fst (main example_env minimal_args readonly_world)) = 1"
proof -
  have split: "scaffold_statements example_env
        (self (entry_state example_env minimal_args readonly_world))
      = [] @ create_directory_structure
          # tl (scaffold_statements example_env
                 (self (entry_state example_env minimal_args readonly_world)))"
    by (simp add: scaffold_statements_def)
  from errors_propagate_uncaught [OF readonly_fresh, THEN conjunct2, THEN conjunct1,
      rule_format, OF split _ readonly_fails]
  have "main example_env minimal_args readonly_world
       = (Uncaught PermissionError,
          world.truncate ((entry_state example_env minimal_args readonly_world)
              \<lparr>stdout := ''Creating project: p\<newline>''\<rparr>))"
    and "exit_code (fst (main example_env minimal_args readonly_world)) = 1"
    by simp_all
  with readonly_fresh show ?thesis
    by (simp add: world.defs entry_state_def)
qed

section \<open>Running over what exists\<close>

lemma agrees_refl: "agrees fs fs"
  by (auto simp: agrees_def split: option.splits node.splits)

lemma agrees_at:
  "agrees fs F \<Longrightarrow>
   (case fs p of
      None \<Rightarrow> True
    | Some (Dir w) \<Rightarrow> F p = None \<or> F p = Some (Dir w)
    | Some (File w t) \<Rightarrow> F p = None \<or> (\<exists>t'. F p = Some (File w t')))"
  by (simp add: agrees_def)

lemma agrees_dirD:
  assumes "agrees fs F" and "F p = Some (Dir w)"
  shows "fs p = None \<or> fs p = Some (Dir w)"
proof (cases "fs p")
  case None
  then show ?thesis by simp
next
  case (Some x)
  with agrees_at [OF assms(1), of p] assms(2) show ?thesis by (cases x) auto
qed

lemma agrees_fileD:
  assumes "agrees fs F" and "F p = Some (File w t)"
  shows "fs p = None \<or> (\<exists>t'. fs p = Some (File w t'))"
proof (cases "fs p")
  case None
  then show ?thesis by simp
next
  case (Some x)
  with agrees_at [OF assms(1), of p] assms(2) show ?thesis by (cases x) auto
qed

lemma agrees_upd_dir: "agrees fs F \<Longrightarrow> F p = Some (Dir w) \<Longrightarrow> agrees (fs(p \<mapsto> Dir w)) F"
  by (auto simp: agrees_def split: option.splits node.splits)

lemma agrees_upd_file:
  "agrees fs F \<Longrightarrow> F p = Some (File w t) \<Longrightarrow> agrees (fs(p \<mapsto> File w t')) F"
  by (auto simp: agrees_def split: option.splits node.splits)

lemma extendsI:
  "(\<And>p w. a p = Some (Dir w) \<Longrightarrow> b p = Some (Dir w)) \<Longrightarrow>
   (\<And>p w t. a p = Some (File w t) \<Longrightarrow> \<exists>t'. b p = Some (File w t')) \<Longrightarrow> extends a b"
  by (auto simp: extends_def split: option.splits node.splits)

lemma extends_upd_both: "extends a b \<Longrightarrow> extends (a(p \<mapsto> v)) (b(p \<mapsto> v))"
  by (rule extendsI) (auto dest: extends_dirD extends_fileD split: if_splits)

lemma extends_upd_left_dir: "extends a b \<Longrightarrow> b p = Some (Dir w) \<Longrightarrow> extends (a(p \<mapsto> Dir w)) b"
  by (rule extendsI) (auto dest: extends_dirD extends_fileD split: if_splits)

lemma extends_upd_file:
  "extends a b \<Longrightarrow> extends (a(p \<mapsto> File w t)) (b(p \<mapsto> File w t'))"
  by (rule extendsI) (auto dest: extends_dirD extends_fileD split: if_splits)

lemma mkdirs_of_walk: "walk_dir fs cur cs = Inr r \<Longrightarrow> mkdirs fs cur cs = Inr fs"
proof (induction fs cur cs rule: walk_dir.induct)
  case (1 fs cur)
  then show ?case by simp
next
  case (2 fs cur c cs)
  then show ?case by (auto split: if_splits option.splits node.splits)
qed

lemma makedirs_existing:
  "p \<noteq> [] \<Longrightarrow> walk_dir fs [] (components p) = Inr r \<Longrightarrow> makedirs fs p = Inr fs"
  by (simp add: makedirs_def mkdirs_of_walk)

lemma mkdirs_over_existing:
  "mkdirs fs cur cs = Inr fs1 \<Longrightarrow> extends fs fs2 \<Longrightarrow> agrees fs2 F \<Longrightarrow> extends fs1 F \<Longrightarrow>
   \<exists>fs2'. mkdirs fs2 cur cs = Inr fs2' \<and> extends fs1 fs2' \<and> agrees fs2' F"
proof (induction fs cur cs arbitrary: fs2 rule: mkdirs.induct)
  case (1 fs cur)
  then show ?case by simp
next
  case (2 fs cur c cs)
  show ?case
  proof (cases "c = [] \<or> c = ''.''")
    case True
    with "2.IH"(1) [OF True] "2.prems" show ?thesis by simp
  next
    case nd: False
    show ?thesis
    proof (cases "c = ''..''")
      case True
      with "2.IH"(2) [OF nd True] "2.prems" nd show ?thesis by simp
    next
      case False
      show ?thesis
      proof (cases "fs (cur @ [c])")
        case None
        with "2.prems"(1) nd False have wr: "fs cur = Some (Dir True)"
          and rest: "mkdirs (fs(cur @ [c] \<mapsto> Dir True)) (cur @ [c]) cs = Inr fs1"
          by (auto split: option.splits node.splits bool.splits)
        from extends_dirD [OF mkdirs_extends_Inr [OF rest], of "cur @ [c]" True]
        have "fs1 (cur @ [c]) = Some (Dir True)" by simp
        from extends_dirD [OF "2.prems"(4) this] have F: "F (cur @ [c]) = Some (Dir True)" .
        from extends_dirD [OF "2.prems"(2) wr] have wr2: "fs2 cur = Some (Dir True)" .
        note ih = "2.IH"(3) [OF nd False None wr refl refl rest]
        from agrees_dirD [OF "2.prems"(3) F]
        show ?thesis
        proof
          assume n2: "fs2 (cur @ [c]) = None"
          have "extends (fs(cur @ [c] \<mapsto> Dir True)) (fs2(cur @ [c] \<mapsto> Dir True))"
            using "2.prems"(2) by (rule extends_upd_both)
          from ih [OF this agrees_upd_dir [OF "2.prems"(3) F] "2.prems"(4)]
          show ?thesis using nd False n2 wr2 by (simp add: fun_upd_def)
        next
          assume d2: "fs2 (cur @ [c]) = Some (Dir True)"
          have "extends (fs(cur @ [c] \<mapsto> Dir True)) fs2"
            using "2.prems"(2) d2 by (rule extends_upd_left_dir)
          from ih [OF this "2.prems"(3) "2.prems"(4)]
          show ?thesis using nd False d2 by simp
        qed
      next
        case (Some nd')
        with "2.prems"(1) nd False obtain w where w: "nd' = Dir w"
          and rest: "mkdirs fs (cur @ [c]) cs = Inr fs1"
          by (auto split: node.splits)
        from extends_dirD [OF "2.prems"(2), of "cur @ [c]" w] Some w
        have d2: "fs2 (cur @ [c]) = Some (Dir w)" by simp
        from "2.IH"(4) [OF nd False Some w rest "2.prems"(2) "2.prems"(3) "2.prems"(4)]
        show ?thesis using nd False d2 by simp
      qed
    qed
  qed
qed

lemma makedirs_over_existing:
  assumes "makedirs fs p = Inr fs1" and "extends fs fs2" and "agrees fs2 F" and "extends fs1 F"
  shows "\<exists>fs2'. makedirs fs2 p = Inr fs2' \<and> extends fs1 fs2' \<and> agrees fs2' F"
proof -
  from assms(1) have p: "p \<noteq> []" and mk: "mkdirs fs [] (components p) = Inr fs1"
    by (auto simp: makedirs_def split: if_splits)
  from mkdirs_over_existing [OF mk assms(2-4)] p show ?thesis by (simp add: makedirs_def)
qed

lemma open_write_result:
  assumes "open_write fs p txt = Inr fs1"
  obtains d n where "locate fs p = Inr (d, n)" and "n \<noteq> []" and "n \<noteq> ''.''" and "n \<noteq> ''..''"
    and "fs1 = fs(d @ [n] \<mapsto> File True txt)"
    and "fs (d @ [n]) = None \<and> fs d = Some (Dir True) \<or> (\<exists>t. fs (d @ [n]) = Some (File True t))"
  using assms
  by (auto simp: open_write_def
      split: sum.splits prod.splits if_splits option.splits node.splits bool.splits)

lemma open_write_existing:
  "locate fs p = Inr (d, n) \<Longrightarrow> n \<noteq> [] \<Longrightarrow> n \<noteq> ''.'' \<Longrightarrow> n \<noteq> ''..'' \<Longrightarrow>
   fs (d @ [n]) = Some (File True t) \<Longrightarrow>
   open_write fs p txt = Inr (fs(d @ [n] \<mapsto> File True txt))"
  by (simp add: open_write_def)

lemma open_write_new:
  "locate fs p = Inr (d, n) \<Longrightarrow> n \<noteq> [] \<Longrightarrow> n \<noteq> ''.'' \<Longrightarrow> n \<noteq> ''..'' \<Longrightarrow>
   fs (d @ [n]) = None \<Longrightarrow> fs d = Some (Dir True) \<Longrightarrow>
   open_write fs p txt = Inr (fs(d @ [n] \<mapsto> File True txt))"
  by (simp add: open_write_def)

lemma open_write_over_existing:
  assumes w: "open_write fs p txt = Inr fs1" and e: "extends fs fs2" and a: "agrees fs2 F"
    and F: "extends fs1 F"
  shows "\<exists>fs2'. open_write fs2 p txt = Inr fs2' \<and> extends fs1 fs2' \<and> agrees fs2' F"
proof -
  from w obtain d n where l: "locate fs p = Inr (d, n)"
    and n: "n \<noteq> []" "n \<noteq> ''.''" "n \<noteq> ''..''"
    and fs1: "fs1 = fs(d @ [n] \<mapsto> File True txt)"
    and was: "fs (d @ [n]) = None \<and> fs d = Some (Dir True) \<or> (\<exists>t. fs (d @ [n]) = Some (File True t))"
    by (rule open_write_result)
  from locate_extends [OF e l] have l2: "locate fs2 p = Inr (d, n)" .
  from fs1 have "fs1 (d @ [n]) = Some (File True txt)" by simp
  from extends_fileD [OF F this] obtain t' where Fq: "F (d @ [n]) = Some (File True t')" ..
  have ok: "open_write fs2 p txt = Inr (fs2(d @ [n] \<mapsto> File True txt))"
  proof (cases "fs2 (d @ [n])")
    case None
    have "fs (d @ [n]) = None"
    proof (rule ccontr)
      assume "fs (d @ [n]) \<noteq> None"
      from extends_someD [OF e this] None show False by simp
    qed
    with was have "fs d = Some (Dir True)" by simp
    from extends_dirD [OF e this] have "fs2 d = Some (Dir True)" .
    from open_write_new [OF l2 n None this] show ?thesis .
  next
    case (Some x)
    with agrees_fileD [OF a Fq] obtain t2 where "fs2 (d @ [n]) = Some (File True t2)" by auto
    from open_write_existing [OF l2 n this] show ?thesis .
  qed
  moreover have "extends fs1 (fs2(d @ [n] \<mapsto> File True txt))"
    unfolding fs1 using e by (rule extends_upd_file)
  moreover have "agrees (fs2(d @ [n] \<mapsto> File True txt)) F"
    using a Fq by (rule agrees_upd_file)
  ultimately show ?thesis by blast
qed

lemma repeatable_Nil: "repeatable (run [])"
  by (auto simp: repeatable_def)

lemma repeatableD:
  "repeatable f \<Longrightarrow> f st = Inr st' \<Longrightarrow> self st2 = self st \<Longrightarrow>
   extends (files st) (files st2) \<Longrightarrow> agrees (files st2) F \<Longrightarrow> extends (files st') F \<Longrightarrow>
   \<exists>st2'. f st2 = Inr st2' \<and> extends (files st') (files st2') \<and> agrees (files st2') F"
  unfolding repeatable_def by blast

lemma repeatable_Cons:
  assumes f: "repeatable f" "keeps_self f"
    and r: "repeatable (run fs)" "grows (run fs)"
  shows "repeatable (run (f # fs))"
  unfolding repeatable_def
proof (intro allI impI)
  fix st st' st2 :: state and F
  assume ok: "run (f # fs) st = Inr st'" and s2: "self st2 = self st"
    and ext: "extends (files st) (files st2)" and agr: "agrees (files st2) F"
    and up: "extends (files st') F"
  from ok obtain st1 where f1: "f st = Inr st1" and r1: "run fs st1 = Inr st'"
    by (auto split: sum.splits)
  from growsD [OF r(2) r1] up have "extends (files st1) F" by (rule extends_trans)
  from repeatableD [OF f(1) f1 s2 ext agr this]
  obtain st2a where f2: "f st2 = Inr st2a" and e2: "extends (files st1) (files st2a)"
    and a2: "agrees (files st2a) F" by blast
  from keeps_selfD [OF f(2), of st] keeps_selfD [OF f(2), of st2] f1 f2 s2
  have "self st2a = self st1" by simp
  from repeatableD [OF r(1) r1 this e2 a2 up] f2
  show "\<exists>st2'. run (f # fs) st2 = Inr st2' \<and> extends (files st') (files st2')
          \<and> agrees (files st2') F" by simp
qed

lemma repeatable_run_if:
  assumes c: "\<And>st st2. self st2 = self st \<Longrightarrow> c st2 = c st" and r: "repeatable (run fs)"
  shows "repeatable (run_if c fs)"
  unfolding repeatable_def
proof (intro allI impI)
  fix st st' st2 :: state and F
  assume ok: "run_if c fs st = Inr st'" and s2: "self st2 = self st"
    and ext: "extends (files st) (files st2)" and agr: "agrees (files st2) F"
    and up: "extends (files st') F"
  show "\<exists>st2'. run_if c fs st2 = Inr st2' \<and> extends (files st') (files st2')
          \<and> agrees (files st2') F"
  proof (cases "c st")
    case True
    with ok c [OF s2] repeatableD [OF r _ s2 ext agr up] show ?thesis
      by (simp add: run_if_def)
  next
    case False
    with ok c [OF s2] ext agr show ?thesis by (auto simp: run_if_def)
  qed
qed

lemma repeatable_if: "repeatable f \<Longrightarrow> repeatable g \<Longrightarrow> repeatable (if b then f else g)"
  by simp

lemma repeatable_py_print: "repeatable (py_print t)"
  by (auto simp: repeatable_def py_print_def)

lemma repeatable_os_makedirs: "repeatable (os_makedirs p)"
  unfolding repeatable_def
proof (intro allI impI)
  fix st st' st2 :: state and F
  assume "os_makedirs p st = Inr st'" and ext: "extends (files st) (files st2)"
    and agr: "agrees (files st2) F" and up: "extends (files st') F"
  then have "makedirs (files st) p = Inr (files st')"
    by (auto simp: os_makedirs_def split: sum.splits prod.splits)
  from makedirs_over_existing [OF this ext agr up]
  show "\<exists>st2'. os_makedirs p st2 = Inr st2' \<and> extends (files st') (files st2')
          \<and> agrees (files st2') F"
    by (auto simp: os_makedirs_def)
qed

lemma repeatable_write_file: "repeatable (write_file p t)"
  unfolding repeatable_def
proof (intro allI impI)
  fix st st' st2 :: state and F
  assume "write_file p t st = Inr st'" and ext: "extends (files st) (files st2)"
    and agr: "agrees (files st2) F" and up: "extends (files st') F"
  then have "open_write (files st) p t = Inr (files st')"
    by (auto simp: write_file_def split: sum.splits)
  from open_write_over_existing [OF this ext agr up]
  show "\<exists>st2'. write_file p t st2 = Inr st2' \<and> extends (files st') (files st2')
          \<and> agrees (files st2') F"
    by (auto simp: write_file_def)
qed

lemma repeatable_venv_create_step: "venv_repeatable e \<Longrightarrow> repeatable (venv_create_step e p)"
  unfolding repeatable_def
proof (intro allI impI)
  fix st st' st2 :: state and F
  assume v: "venv_repeatable e"
    and "venv_create_step e p st = Inr st'" and ext: "extends (files st) (files st2)"
    and agr: "agrees (files st2) F" and up: "extends (files st') F"
  then have "venv_create e p (files st) = Inr (files st')"
    by (auto simp: venv_create_step_def split: sum.splits prod.splits)
  with v ext agr up obtain fs2' where "venv_create e p (files st2) = Inr fs2'"
    and "extends (files st') fs2'" and "agrees fs2' F"
    unfolding venv_repeatable_def by blast
  then show "\<exists>st2'. venv_create_step e p st2 = Inr st2' \<and> extends (files st') (files st2')
          \<and> agrees (files st2') F"
    by (simp add: venv_create_step_def)
qed

lemma repeatable_method:
  "(\<And>s. repeatable (run (body s))) \<Longrightarrow> repeatable (\<lambda>st. run (body (self st)) st)"
  unfolding repeatable_def by metis

lemmas statement_intros =
  repeatable_Nil repeatable_Cons repeatable_run_if repeatable_if repeatable_py_print
  repeatable_os_makedirs repeatable_write_file keeps_self_intros grows_intros

lemma repeatable_create_directory_structure: "repeatable create_directory_structure"
proof -
  have "repeatable (run (create_directory_structure_statements s))" for s
    unfolding create_directory_structure_statements_def Let_def
    by (intro statement_intros) simp_all
  from repeatable_method [of create_directory_structure_statements, OF this]
  show ?thesis by (simp add: create_directory_structure_def [abs_def])
qed

lemma repeatable_create_setup_files: "repeatable create_setup_files"
proof -
  have "repeatable (run (create_setup_files_statements s))" for s
    unfolding create_setup_files_statements_def by (intro statement_intros)
  from repeatable_method [of create_setup_files_statements, OF this]
  show ?thesis by (simp add: create_setup_files_def [abs_def])
qed

lemma repeatable_create_readme: "repeatable create_readme"
proof -
  have "repeatable (run (create_readme_statements s))" for s
    unfolding create_readme_statements_def by (intro statement_intros)
  from repeatable_method [of create_readme_statements, OF this]
  show ?thesis by (simp add: create_readme_def [abs_def])
qed

lemma repeatable_create_license: "repeatable (create_license e)"
proof -
  have "repeatable (run (create_license_statements e s))" for s
    unfolding create_license_statements_def by (intro statement_intros)
  from repeatable_method [of "create_license_statements e", OF this]
  show ?thesis by (simp add: create_license_def [abs_def])
qed

lemma repeatable_create_gitignore: "repeatable create_gitignore"
proof -
  have "repeatable (run (create_gitignore_statements s))" for s
    unfolding create_gitignore_statements_def by (intro statement_intros)
  from repeatable_method [of create_gitignore_statements, OF this]
  show ?thesis by (simp add: create_gitignore_def [abs_def])
qed

lemma repeatable_create_makefile: "repeatable create_makefile"
proof -
  have "repeatable (run (create_makefile_statements s))" for s
    unfolding create_makefile_statements_def by (intro statement_intros)
  from repeatable_method [of create_makefile_statements, OF this]
  show ?thesis by (simp add: create_makefile_def [abs_def])
qed

lemma repeatable_create_venv:
  assumes "venv_extends e" and "venv_repeatable e"
  shows "repeatable (create_venv e)"
proof -
  have "repeatable (run (create_venv_statements e s))" for s
    unfolding create_venv_statements_def
    by (intro statement_intros repeatable_venv_create_step [OF assms(2)]
        grows_venv_create_step [OF assms(1)] keeps_self_venv_create_step) simp_all
  from repeatable_method [of "create_venv_statements e", OF this]
  show ?thesis by (simp add: create_venv_def [abs_def])
qed

lemma repeatable_scaffold:
  assumes "venv_extends e" and "venv_repeatable e"
  shows "repeatable (scaffold e)"
proof -
  have "repeatable (run (scaffold_statements e s))" for s
    unfolding scaffold_statements_def
    by (intro statement_intros
        repeatable_create_directory_structure keeps_self_create_directory_structure
        repeatable_create_setup_files keeps_self_create_setup_files grows_create_setup_files
        repeatable_create_readme keeps_self_create_readme grows_create_readme
        repeatable_create_license keeps_self_create_license grows_create_license
        repeatable_create_gitignore keeps_self_create_gitignore grows_create_gitignore
        repeatable_create_makefile keeps_self_create_makefile grows_create_makefile
        repeatable_create_venv [OF assms] keeps_self_create_venv
        grows_create_venv [OF assms(1)]) simp_all
  from repeatable_method [of "scaffold_statements e", OF this]
  show ?thesis by (simp add: scaffold_def [abs_def])
qed

lemma example_venv_repeatable: "venv_repeatable example_env"
  unfolding venv_repeatable_def
  by (auto simp: example_env_def dest: makedirs_over_existing)

lemma minimal_run_result:
  "case scaffold example_env (entry_state example_env minimal_args example_world) of
     Inl x \<Rightarrow> False
   | Inr st \<Rightarrow> files st [] = Some (Dir True) \<and> files st [''w''] = Some (Dir True)
        \<and> files st [''w'', ''p''] = Some (Dir True)"
  by (simp add: model_defs example_env_def example_world_def minimal_args_def)

text \<open>
  C7, as the code has it: \<^verbatim>\<open>scaffold\<close> has no existence check of its own. \<^verbatim>\<open>os.makedirs\<close> with
  \<^verbatim>\<open>exist_ok=True\<close> completes on a directory that exists and changes nothing, and opening
  a writable regular file that exists replaces its text without an error. So where a
  run of \<^verbatim>\<open>scaffold\<close> completes, it also completes from every file system that holds more
  than the first (the target directory, the package, tests or docs directory, the
  generated files, anything else), provided what is there agrees with what the run
  creates: a directory where it creates a directory, a writable regular file where it
  writes a file. What is assumed of the external environment builder is that it only
  extends the file system and can itself be repeated so. Where a directory stands in
  the place of a file that \<^verbatim>\<open>scaffold\<close> writes, the counterexample shows that it fails.
\<close>

theorem scaffold_over_existing:
  "(\<forall>fs p r. p \<noteq> [] \<longrightarrow> walk_dir fs [] (components p) = Inr r \<longrightarrow> makedirs fs p = Inr fs)
   \<and> (\<forall>fs p d n t txt.
         locate fs p = Inr (d, n) \<longrightarrow> n \<noteq> [] \<longrightarrow> n \<noteq> ''.'' \<longrightarrow> n \<noteq> ''..'' \<longrightarrow>
         fs (d @ [n]) = Some (File True t) \<longrightarrow>
         open_write fs p txt = Inr (fs(d @ [n] \<mapsto> File True txt)))
   \<and> (venv_extends e \<longrightarrow> venv_repeatable e \<longrightarrow> scaffold e st = Inr st' \<longrightarrow>
       self st2 = self st \<longrightarrow> extends (files st) (files st2) \<longrightarrow>
       agrees (files st2) F \<longrightarrow> extends (files st') F \<longrightarrow>
       (\<exists>st2'. scaffold e st2 = Inr st2' \<and> extends (files st') (files st2')))"
proof (intro conjI allI impI)
  assume "venv_extends e" and "venv_repeatable e" and "scaffold e st = Inr st'"
    and "self st2 = self st" and "extends (files st) (files st2)"
    and "agrees (files st2) F" and "extends (files st') F"
  with repeatableD [OF repeatable_scaffold, of e st st' st2 F]
  show "\<exists>st2'. scaffold e st2 = Inr st2' \<and> extends (files st') (files st2')" by blast
qed (simp_all add: makedirs_existing open_write_existing)

theorem scaffold_over_existing_witness:
  "venv_extends example_env \<and> venv_repeatable example_env
   \<and> path_exists (files prepared_world)
       (path_join (cwd example_env) (arg_project_name minimal_args))
   \<and> extends (files example_world) (files prepared_world)
   \<and> (\<exists>st2'. scaffold example_env (entry_state example_env minimal_args prepared_world)
         = Inr st2')"
proof -
  let ?st = "entry_state example_env minimal_args example_world"
  let ?st2 = "entry_state example_env minimal_args prepared_world"
  from minimal_run_result obtain st' where ok: "scaffold example_env ?st = Inr st'"
    and root: "files st' [] = Some (Dir True)" and w: "files st' [''w''] = Some (Dir True)"
    and p: "files st' [''w'', ''p''] = Some (Dir True)"
    by (auto split: sum.splits)
  have s: "self ?st2 = self ?st" by (simp add: entry_state_def)
  have ext: "extends (files ?st) (files ?st2)"
    by (rule extendsI)
       (auto simp: entry_state_def example_world_def prepared_world_def split: if_splits)
  have agr: "agrees (files ?st2) (files st')"
    using root w p
    by (auto simp: agrees_def entry_state_def prepared_world_def split: option.splits node.splits)
  have ex: "path_exists (files prepared_world)
       (path_join (cwd example_env) (arg_project_name minimal_args))"
    by (simp add: path_exists_def locate_def components_def path_join_def example_env_def
        prepared_world_def minimal_args_def)
  from scaffold_over_existing [of example_env ?st st' ?st2 "files st'", THEN conjunct2,
      THEN conjunct2, rule_format, OF example_venv_extends example_venv_repeatable ok s ext agr
      extends_refl]
  obtain st2' where "scaffold example_env ?st2 = Inr st2'" by blast
  with example_venv_extends example_venv_repeatable ex ext show ?thesis
    by (auto simp: entry_state_def)
qed

theorem scaffold_over_existing_counterexample:
  "files occupied_world [''w'', ''p''] = Some (Dir True)
   \<and> path_exists (files occupied_world)
       (path_join (cwd example_env) (arg_project_name minimal_args))
   \<and> (\<exists>st. scaffold example_env (entry_state example_env minimal_args occupied_world)
         = Inl (IsADirectoryError, st))"
  by (simp add: model_defs example_env_def occupied_world_def minimal_args_def)

section \<open>Runs in a fresh target directory\<close>


lemma split_sep_no_sep: "sep \<notin> set c \<Longrightarrow> split_sep sep c = [c]"
  by (induction c) auto

lemma split_sep_append:
  "sep \<notin> set c \<Longrightarrow>
   split_sep sep (c @ x) = (c @ hd (split_sep sep x)) # tl (split_sep sep x)"
  using split_sep_nonempty [of sep x]
  by (induction c) (auto split: list.splits)

lemma split_sep_concat:
  "\<forall>c \<in> set p. CHR ''/'' \<notin> set c \<Longrightarrow> p \<noteq> [] \<Longrightarrow>
   split_sep CHR ''/'' (concat (map (\<lambda>c. CHR ''/'' # c) p)) = [] # p"
proof (induction p)
  case Nil
  then show ?case by simp
next
  case (Cons c p)
  then have c: "CHR ''/'' \<notin> set c" by simp
  show ?case
  proof (cases "p = []")
    case True
    with c show ?thesis by (simp add: split_sep_no_sep)
  next
    case False
    with Cons have "split_sep CHR ''/'' (concat (map (\<lambda>c. CHR ''/'' # c) p)) = [] # p"
      by simp
    with c show ?thesis by (simp add: split_sep_append)
  qed
qed

lemma split_sep_canonical:
  "canonical p \<Longrightarrow> p \<noteq> [] \<Longrightarrow>
   split_sep CHR ''/'' (concat (map (\<lambda>c. CHR ''/'' # c) p)) = [] # p"
  by (rule split_sep_concat) (auto simp: canonical_def plain_def)

lemma components_abs_path: "canonical p \<Longrightarrow> p \<noteq> [] \<Longrightarrow> components (abs_path p) = [] # p"
  by (simp add: components_def abs_path_def split_sep_canonical)

lemma abs_path_nonempty: "abs_path p \<noteq> []"
  by (cases p) (simp_all add: abs_path_def)

lemma last_abs_path: "canonical p \<Longrightarrow> p \<noteq> [] \<Longrightarrow> last (abs_path p) \<noteq> CHR ''/''"
proof (induction p)
  case Nil
  then show ?case by simp
next
  case (Cons c p)
  then have c: "c \<noteq> []" "CHR ''/'' \<notin> set c" by (simp_all add: canonical_def plain_def)
  show ?case
  proof (cases "p = []")
    case True
    with c show ?thesis by (auto simp: abs_path_def dest: last_in_set)
  next
    case False
    with Cons have "last (abs_path p) \<noteq> CHR ''/''" by (simp add: canonical_def)
    with False abs_path_nonempty [of p] show ?thesis by (simp add: abs_path_def)
  qed
qed

lemma path_join_abs_path:
  "canonical p \<Longrightarrow> plain n \<Longrightarrow> path_join (abs_path p) n = abs_path (p @ [n])"
proof (cases "p = []")
  case True
  assume "plain n"
  with True show ?thesis by (cases n) (auto simp: path_join_def abs_path_def plain_def)
next
  case False
  assume "canonical p" and "plain n"
  with False last_abs_path [of p] abs_path_nonempty [of p] show ?thesis
    by (cases n) (auto simp: path_join_def abs_path_def plain_def)
qed

lemma path_join_slash_free:
  assumes "canonical p" and "CHR ''/'' \<notin> set n"
  shows "path_join (abs_path p) n = concat (map (\<lambda>c. CHR ''/'' # c) (p @ [n]))"
proof (cases "p = []")
  case True
  with assms(2) show ?thesis by (cases n) (auto simp: path_join_def abs_path_def)
next
  case False
  with assms last_abs_path [of p] abs_path_nonempty [of p] show ?thesis
    by (cases n) (auto simp: path_join_def abs_path_def)
qed

lemma components_path_join:
  assumes "canonical p" and "CHR ''/'' \<notin> set n"
  shows "components (path_join (abs_path p) n) = [] # p @ [n]"
proof -
  from assms have "\<forall>c \<in> set (p @ [n]). CHR ''/'' \<notin> set c"
    by (auto simp: canonical_def plain_def)
  from split_sep_concat [OF this] path_join_slash_free [OF assms] show ?thesis
    by (simp add: components_def)
qed

lemma fresh_target:
  assumes cw: "canonical cw" and walk: "walk_dir fs [] cw = Inr cw"
    and n: "CHR ''/'' \<notin> set n"
    and fresh: "\<not> path_exists fs (path_join (abs_path cw) n)"
  shows "plain n" and "fs (cw @ [n]) = None"
proof -
  have ne: "path_join (abs_path cw) n \<noteq> []"
    by (simp add: path_join_slash_free [OF cw n])
  from fresh have "\<not> (n = [] \<or> n = ''.'' \<or> n = ''..'') \<and> fs (cw @ [n]) = None"
    unfolding path_exists_def locate_def
    by (simp add: ne components_path_join [OF cw n] walk split: if_splits)
  with n show "plain n" and "fs (cw @ [n]) = None" by (simp_all add: plain_def)
qed

lemma wf_fs_below: "wf_fs fs \<Longrightarrow> fs p = None \<Longrightarrow> fs (p @ q) = None"
proof (induction q rule: rev_induct)
  case Nil
  then show ?case by simp
next
  case (snoc c q)
  show ?case
  proof (rule ccontr)
    assume "fs (p @ q @ [c]) \<noteq> None"
    then have "fs ((p @ q) @ [c]) \<noteq> None" by simp
    with snoc.prems(1) obtain w where "fs (p @ q) = Some (Dir w)"
      unfolding wf_fs_def by blast
    with snoc show False by simp
  qed
qed

lemma char_lower_special:
  assumes "\<not> is_lower x" and "\<not> is_upper x"
  shows "char_lower c = x \<longleftrightarrow> c = x"
proof
  assume h: "char_lower c = x"
  show "c = x"
  proof (cases "is_upper c")
    case True
    with h have "(of_char x :: nat) = of_char (char_of ((of_char c :: nat) + 32))"
      by (simp add: char_lower_def)
    with True assms(1) show ?thesis by (simp add: is_upper_def is_lower_def)
  next
    case False
    with h show ?thesis by (simp add: char_lower_def)
  qed
next
  assume "c = x"
  with assms(2) show "char_lower c = x" by (simp add: char_lower_def)
qed

lemma package_name_plain:
  assumes "plain name"
  shows "plain (str_lower (str_replace CHR ''-'' CHR ''_'' name))"
proof -
  define f where "f = (\<lambda>c. if c = CHR ''-'' then CHR ''_'' else char_lower c)"
  have f_slash: "f c = CHR ''/'' \<longleftrightarrow> c = CHR ''/''" for c
    using char_lower_special [of "CHR ''/''" c]
    by (simp add: f_def is_lower_def is_upper_def)
  have f_dot: "f c = CHR ''.'' \<longleftrightarrow> c = CHR ''.''" for c
    using char_lower_special [of "CHR ''.''" c]
    by (simp add: f_def is_lower_def is_upper_def)
  have eq: "str_lower (str_replace CHR ''-'' CHR ''_'' name) = map f name"
    by (simp add: str_lower_def str_replace_def char_lower_underscore f_def)
  have slash: "CHR ''/'' \<notin> set (map f name)"
  proof
    assume "CHR ''/'' \<in> set (map f name)"
    then obtain c where "c \<in> set name" and "f c = CHR ''/''" by auto
    with f_slash [of c] assms show False by (simp add: plain_def)
  qed
  have dot: "map f name \<noteq> ''.''"
  proof
    assume "map f name = ''.''"
    then obtain c where "name = [c]" and "f c = CHR ''.''" by auto
    with f_dot [of c] assms show False by (simp add: plain_def)
  qed
  have dots: "map f name \<noteq> ''..''"
  proof
    assume "map f name = ''..''"
    then obtain c d where "name = [c, d]" and "f c = CHR ''.''" and "f d = CHR ''.''"
      by auto
    with f_dot [of c] f_dot [of d] assms show False by (simp add: plain_def)
  qed
  from assms slash dot dots show ?thesis
    unfolding eq plain_def by simp
qed

lemma canonical_append [simp]: "canonical (p @ q) \<longleftrightarrow> canonical p \<and> canonical q"
  by (auto simp: canonical_def)

lemma canonical_Cons [simp]: "canonical (c # p) \<longleftrightarrow> plain c \<and> canonical p"
  by (auto simp: canonical_def)

lemma canonical_Nil [simp]: "canonical []"
  by (simp add: canonical_def)

lemma walk_dir_append:
  "walk_dir fs cur (xs @ ys) =
     (case walk_dir fs cur xs of Inl err \<Rightarrow> Inl err | Inr r \<Rightarrow> walk_dir fs r ys)"
  by (induction fs cur xs rule: walk_dir.induct)
     (auto split: option.splits node.splits)

lemma walk_dir_plain:
  "plain c \<Longrightarrow>
   walk_dir fs cur (c # cs) =
     (case fs (cur @ [c]) of
        None \<Rightarrow> Inl FileNotFoundError
      | Some (Dir w) \<Rightarrow> walk_dir fs (cur @ [c]) cs
      | Some (File w t) \<Rightarrow> Inl NotADirectoryError)"
  by (simp add: plain_def)

lemma mkdirs_plain:
  "plain c \<Longrightarrow>
   mkdirs fs cur (c # cs) =
     (case fs (cur @ [c]) of
        Some (Dir w) \<Rightarrow> mkdirs fs (cur @ [c]) cs
      | Some (File w t) \<Rightarrow> Inl (if cs = [] then FileExistsError else NotADirectoryError, fs)
      | None \<Rightarrow>
          (case fs cur of
             Some (Dir True) \<Rightarrow> mkdirs (fs(cur @ [c] \<mapsto> Dir True)) (cur @ [c]) cs
           | Some (Dir False) \<Rightarrow> Inl (PermissionError, fs)
           | Some (File w t) \<Rightarrow> Inl (NotADirectoryError, fs)
           | None \<Rightarrow> Inl (FileNotFoundError, fs)))"
  by (simp add: plain_def)

lemma mkdirs_append:
  "walk_dir fs cur xs = Inr r \<Longrightarrow> mkdirs fs cur (xs @ ys) = mkdirs fs r ys"
  by (induction fs cur xs rule: walk_dir.induct)
     (auto split: if_splits option.splits node.splits)

lemma walk_dir_upd_below:
  "canonical p \<Longrightarrow> walk_dir (fs(cur @ p @ x # q \<mapsto> v)) cur p = walk_dir fs cur p"
proof (induction p arbitrary: cur)
  case Nil
  then show ?case by simp
next
  case (Cons c p)
  from Cons.prems have c: "plain c" and p: "canonical p" by simp_all
  from Cons.IH [OF p, of "cur @ [c]"] c show ?case
    by (simp add: walk_dir_plain del: walk_dir.simps split: option.splits node.splits)
qed

lemma walk_dir_upd_below_root:
  "canonical p \<Longrightarrow> walk_dir (fs(p @ x # q \<mapsto> v)) [] p = walk_dir fs [] p"
  using walk_dir_upd_below [of p fs "[]" x q v] by simp

lemma mkdirs_from:
  "walk_dir fs [] p = Inr p \<Longrightarrow> mkdirs fs [] (p @ ys) = mkdirs fs p ys"
  by (rule mkdirs_append)

lemma makedirs_abs_path:
  "canonical p \<Longrightarrow> p \<noteq> [] \<Longrightarrow> makedirs fs (abs_path p) = mkdirs fs [] p"
  by (simp add: makedirs_def abs_path_nonempty components_abs_path)

lemma locate_abs_path:
  "canonical p \<Longrightarrow> p \<noteq> [] \<Longrightarrow>
   locate fs (abs_path p) =
     (case walk_dir fs [] (butlast p) of Inl err \<Rightarrow> Inl err | Inr d \<Rightarrow> Inr (d, last p))"
  by (simp add: locate_def abs_path_nonempty components_abs_path cong: sum.case_cong)

lemma plain_literals [simp]:
  "plain ''tests''" "plain ''docs''" "plain ''venv''" "plain ''__init__.py''" "plain ''index.md''"
  "plain ''setup.py''" "plain ''pyproject.toml''" "plain ''setup.cfg''" "plain ''README.md''"
  "plain ''LICENSE''" "plain ''.gitignore''" "plain ''Makefile''"
  by (simp_all add: plain_def)

lemma plain_test_module: "plain pkg \<Longrightarrow> plain (''test_'' @ pkg @ ''.py'')"
  by (simp add: plain_def)

lemmas plain_test_module_simp [simp] = plain_test_module [unfolded append.simps]

lemmas exec_simps =
  path_join_abs_path makedirs_abs_path locate_abs_path walk_dir_append mkdirs_from
  walk_dir_plain mkdirs_plain walk_dir_upd_below_root butlast_append
  run_if_def py_print_def os_makedirs_def write_file_def open_write_def Let_def

lemma cds_fresh:
  assumes cw: "canonical cw" and walk: "walk_dir fs [] cw = Inr cw"
    and name: "plain name" and pkg: "plain (package_name s)"
    and base: "base_dir s = abs_path (cw @ [name])"
    and empty: "\<And>q. fs (cw @ name # q) = None"
    and wr: "fs cw = Some (Dir True)"
  shows "\<exists>st1. create_directory_structure \<lparr>files = fs, stdout = out, self = s\<rparr> = Inr st1
           \<and> self st1 = s
           \<and> walk_dir (files st1) [] cw = Inr cw
           \<and> (\<forall>q. files st1 (cw @ name # q) = directory_layout s q)"
  using cw walk name pkg empty wr
  by (simp add: create_directory_structure_def create_directory_structure_statements_def base
      exec_simps directory_layout_def del: walk_dir.simps(2) mkdirs.simps(2))

lemma cds_needs_writable:
  assumes cw: "canonical cw" and walk: "walk_dir fs [] cw = Inr cw"
    and name: "plain name"
    and base: "base_dir s = abs_path (cw @ [name])"
    and empty: "\<And>q. fs (cw @ name # q) = None"
    and wr: "fs cw \<noteq> Some (Dir True)"
  shows "\<exists>x. create_directory_structure \<lparr>files = fs, stdout = out, self = s\<rparr> = Inl x"
  using cw walk name empty [of "[]"] wr
  by (simp add: create_directory_structure_def create_directory_structure_statements_def base
      path_join_abs_path makedirs_abs_path mkdirs_from mkdirs_plain
      py_print_def os_makedirs_def Let_def
      del: walk_dir.simps(2) mkdirs.simps(2)
      split: option.splits node.splits bool.splits)

lemma write_in_target:
  assumes cw: "canonical cw" and name: "plain name" and n: "plain n"
    and walk: "walk_dir (files st) [] cw = Inr cw"
    and dir: "files st (cw @ [name]) = Some (Dir w)"
    and ok: "write_file (abs_path (cw @ [name, n])) txt st = Inr st'"
  shows "st' = st\<lparr>files := (files st)(cw @ [name, n] \<mapsto> File True txt)\<rparr>"
  using cw name n walk dir ok
  by (auto simp: write_file_def open_write_def locate_abs_path butlast_append walk_dir_append
      walk_dir_plain
      simp del: walk_dir.simps(2)
      split: sum.splits prod.splits if_splits option.splits node.splits bool.splits)

lemma write_in_target_not_dir:
  assumes cw: "canonical cw" and name: "plain name" and n: "plain n"
    and walk: "walk_dir (files st) [] cw = Inr cw"
    and dir: "files st (cw @ [name]) = Some (Dir w)"
    and ok: "write_file (abs_path (cw @ [name, n])) txt st = Inr st'"
  shows "files st (cw @ [name, n]) \<noteq> Some (Dir w')"
  using cw name n walk dir ok
  by (auto simp: write_file_def open_write_def locate_abs_path butlast_append walk_dir_append
      walk_dir_plain
      simp del: walk_dir.simps(2)
      split: sum.splits prod.splits if_splits option.splits node.splits bool.splits)

lemma target_kept:
  assumes cw: "canonical cw"
    and walk: "walk_dir fs [] cw = Inr cw" and dir: "fs (cw @ [name]) = Some (Dir w)"
  shows "walk_dir (fs(cw @ [name, n] \<mapsto> v)) [] cw = Inr cw"
    and "(fs(cw @ [name, n] \<mapsto> v)) (cw @ [name]) = Some (Dir w)"
  using cw walk dir walk_dir_upd_below_root [of cw fs name "[n]" v] by simp_all

lemma layout_upd:
  "(\<forall>q. fs (b @ q) = t q) \<Longrightarrow> (\<forall>q. (fs(b @ p \<mapsto> v)) (b @ q) = (t(p \<mapsto> v)) q)"
  by simp

lemma write_step:
  assumes cw: "canonical cw" and name: "plain name" and n: "plain n"
    and inv: "walk_dir (files st) [] cw = Inr cw \<and> files st (cw @ [name]) = Some (Dir True)
              \<and> (\<forall>q. files st (cw @ name # q) = t q)"
    and ok: "write_file (abs_path (cw @ [name, n])) txt st = Inr st'"
  shows "walk_dir (files st') [] cw = Inr cw \<and> files st' (cw @ [name]) = Some (Dir True)
         \<and> (\<forall>q. files st' (cw @ name # q) = (t([n] \<mapsto> File True txt)) q)"
    and "self st' = self st"
    and "t [n] \<noteq> Some (Dir w')"
proof -
  note walk = inv [THEN conjunct1]
  note dir = inv [THEN conjunct2, THEN conjunct1]
  note lay = inv [THEN conjunct2, THEN conjunct2, rule_format]
  note st' = write_in_target [OF cw name n walk dir ok]
  from st' show "self st' = self st" by simp
  from write_in_target_not_dir [OF cw name n walk dir ok, of w'] lay [of "[n]"]
  show "t [n] \<noteq> Some (Dir w')" by simp
  have f: "files st' = (files st)(cw @ [name, n] \<mapsto> File True txt)"
    by (subst st') simp
  show "walk_dir (files st') [] cw = Inr cw \<and> files st' (cw @ [name]) = Some (Dir True)
         \<and> (\<forall>q. files st' (cw @ name # q) = (t([n] \<mapsto> File True txt)) q)"
    unfolding f
  proof (intro conjI allI)
    show "walk_dir ((files st)(cw @ [name, n] \<mapsto> File True txt)) [] cw = Inr cw"
      by (rule target_kept(1) [OF cw walk dir])
    show "((files st)(cw @ [name, n] \<mapsto> File True txt)) (cw @ [name]) = Some (Dir True)"
      by (rule target_kept(2) [OF cw walk dir])
    show "((files st)(cw @ [name, n] \<mapsto> File True txt)) (cw @ name # q)
            = (t([n] \<mapsto> File True txt)) q" for q
      by (simp add: lay)
  qed
qed

lemma directory_layout_root: "directory_layout s [] = Some (Dir True)"
  by (simp add: directory_layout_def Let_def)

lemma fresh_run:
  assumes cw: "canonical cw" and cwd: "cwd e = abs_path cw"
    and walk: "walk_dir fs [] cw = Inr cw" and wf: "wf_fs fs"
    and slash: "CHR ''/'' \<notin> set name"
    and fresh: "\<not> path_exists fs (path_join (cwd e) name)"
    and s: "s = scaffolder_init e name t d v a m ds"
    and ok: "scaffold e \<lparr>files = fs, stdout = out, self = s\<rparr> = Inr st'"
  shows "\<exists>fs6. walk_dir fs6 [] cw = Inr cw
           \<and> (\<forall>q. fs6 (cw @ name # q) = layout e s q)
           \<and> (if v then venv_create e (abs_path (cw @ [name, ''venv''])) fs6 = Inr (files st')
               else files st' = fs6)"
    and "plain name" and "plain (package_name s)"
    and "package_name s \<notin> {''setup.py'', ''pyproject.toml'', ''setup.cfg'', ''README.md'',
           ''LICENSE'', ''.gitignore'', ''Makefile''}"
proof -
  let ?st0 = "\<lparr>files = fs, stdout = out, self = s\<rparr>"
  from fresh_target [OF cw walk slash fresh [unfolded cwd]]
  have name: "plain name" and none: "fs (cw @ [name]) = None" .
  show "plain name" by (rule name)
  have empty: "fs (cw @ name # q) = None" for q
    using wf_fs_below [OF wf none, of q] by simp
  have pkg: "plain (package_name s)"
    unfolding s by (simp add: scaffolder_init_def package_name_plain [OF name])
  show "plain (package_name s)" by (rule pkg)
  have base: "base_dir s = abs_path (cw @ [name])"
    unfolding s by (simp add: scaffolder_init_def cwd path_join_abs_path [OF cw name])
  have v: "use_venv s = v" unfolding s by (simp add: scaffolder_init_def)
  from ok obtain st1 st2 st3 st4 st5 st6 st7
    where c1: "create_directory_structure ?st0 = Inr st1"
      and c2: "create_setup_files st1 = Inr st2"
      and c3: "create_readme st2 = Inr st3"
      and c4: "create_license e st3 = Inr st4"
      and c5: "create_gitignore st4 = Inr st5"
      and c6: "create_makefile st5 = Inr st6"
      and c7: "run_if (\<lambda>st. use_venv (self st)) [create_venv e] st6 = Inr st7"
      and last: "files st' = files st7"
    by (auto simp: scaffold_def scaffold_statements_def py_print_def split: sum.splits)
  have wr: "fs cw = Some (Dir True)"
  proof (rule ccontr)
    assume "fs cw \<noteq> Some (Dir True)"
    from cds_needs_writable [OF cw walk name base empty this, of out] c1
    show False by simp
  qed
  from cds_fresh [OF cw walk name pkg base empty wr, of out] c1
  have s1: "self st1 = s" and walk1: "walk_dir (files st1) [] cw = Inr cw"
    and lay1: "\<forall>q. files st1 (cw @ name # q) = directory_layout s q"
    by auto
  from lay1 [rule_format, of "[]"] have dir1: "files st1 (cw @ [name]) = Some (Dir True)"
    by (simp add: directory_layout_root)
  note inv1 = conjI [OF walk1 conjI [OF dir1 lay1]]
  note step = write_step [OF cw name]
  from c2 s1 obtain st2a st2b
    where w1: "write_file (abs_path (cw @ [name, ''setup.py''])) (setup_py_text s) st1 = Inr st2a"
      and w2: "write_file (abs_path (cw @ [name, ''pyproject.toml''])) pyproject_text st2a = Inr st2b"
      and w3: "write_file (abs_path (cw @ [name, ''setup.cfg''])) setup_cfg_text st2b = Inr st2"
    by (auto simp: create_setup_files_def create_setup_files_statements_def base
        path_join_abs_path cw name split: sum.splits)
  note i1 = step [OF _ inv1 w1, simplified]
  note i2 = step [OF _ i1(1) w2, simplified]
  note i3 = step [OF _ i2(1) w3, simplified]
  from i1(2) i2(2) i3(2) s1 have s2: "self st2 = s" by simp
  from c3 s2
  have w4: "write_file (abs_path (cw @ [name, ''README.md''])) (readme_text s) st2 = Inr st3"
    by (auto simp: create_readme_def create_readme_statements_def base
        path_join_abs_path cw name split: sum.splits)
  note i4 = step [OF _ i3(1) w4, simplified]
  from i4(2) s2 have s3: "self st3 = s" by simp
  from c4 s3
  have w5: "write_file (abs_path (cw @ [name, ''LICENSE''])) (license_text e s) st3 = Inr st4"
    by (auto simp: create_license_def create_license_statements_def base
        path_join_abs_path cw name split: sum.splits)
  note i5 = step [OF _ i4(1) w5, simplified]
  from i5(2) s3 have s4: "self st4 = s" by simp
  from c5 s4
  have w6: "write_file (abs_path (cw @ [name, ''.gitignore''])) gitignore_text st4 = Inr st5"
    by (auto simp: create_gitignore_def create_gitignore_statements_def base
        path_join_abs_path cw name split: sum.splits)
  note i6 = step [OF _ i5(1) w6, simplified]
  from i6(2) s4 have s5: "self st5 = s" by simp
  from c6 s5
  have w7: "write_file (abs_path (cw @ [name, ''Makefile''])) makefile_text st5 = Inr st6"
    by (auto simp: create_makefile_def create_makefile_statements_def base
        path_join_abs_path cw name split: sum.splits)
  note i7 = step [OF _ i6(1) w7, simplified]
  from i7(2) s5 have s6: "self st6 = s" by simp
  from i7(1) have lay: "\<forall>q. files st6 (cw @ name # q) = layout e s q"
    by (simp add: layout_def)
  have "if v then venv_create e (abs_path (cw @ [name, ''venv''])) (files st6) = Inr (files st7)
        else files st7 = files st6"
    using c7 s6 v
    by (auto simp: run_if_def create_venv_def create_venv_statements_def py_print_def
        venv_create_step_def base path_join_abs_path cw name
        split: sum.splits prod.splits if_splits)
  with lay last i7(1)
  show "\<exists>fs6. walk_dir fs6 [] cw = Inr cw
           \<and> (\<forall>q. fs6 (cw @ name # q) = layout e s q)
           \<and> (if v then venv_create e (abs_path (cw @ [name, ''venv''])) fs6 = Inr (files st')
               else files st' = fs6)"
    by auto
  have root: "directory_layout s [package_name s] = Some (Dir True)"
    by (auto simp: directory_layout_def Let_def)
  from i1(3) [of True] i2(3) [of True] i3(3) [of True] i4(3) [of True] i5(3) [of True]
    i6(3) [of True] i7(3) [of True] root
  show "package_name s \<notin> {''setup.py'', ''pyproject.toml'', ''setup.cfg'', ''README.md'',
           ''LICENSE'', ''.gitignore'', ''Makefile''}"
    by (auto split: if_splits)
qed

section \<open>The generated tree\<close>

lemma layout_root: "layout e s [] = Some (Dir True)"
  by (simp add: layout_def directory_layout_def Let_def)

lemma layout_files:
  "layout e s [''setup.py''] = Some (File True (setup_py_text s))"
  "layout e s [''pyproject.toml''] = Some (File True pyproject_text)"
  "layout e s [''setup.cfg''] = Some (File True setup_cfg_text)"
  "layout e s [''README.md''] = Some (File True (readme_text s))"
  "layout e s [''LICENSE''] = Some (File True (license_text e s))"
  "layout e s [''.gitignore''] = Some (File True gitignore_text)"
  "layout e s [''Makefile''] = Some (File True makefile_text)"
  by (simp_all add: layout_def)

lemma layout_package:
  assumes "package_name s \<notin> {''setup.py'', ''pyproject.toml'', ''setup.cfg'', ''README.md'',
           ''LICENSE'', ''.gitignore'', ''Makefile''}"
  shows "layout e s [package_name s] = Some (Dir True)"
  using assms by (auto simp: layout_def directory_layout_def Let_def)

lemma layout_package_init:
  "\<exists>txt. layout e s [package_name s, ''__init__.py''] = Some (File True txt)"
  by (auto simp: layout_def directory_layout_def Let_def)

lemma layout_tests:
  assumes "use_tests s"
  shows "layout e s [''tests''] = Some (Dir True)"
    and "layout e s [''tests'', ''__init__.py''] = Some (File True tests_init_text)"
    and "layout e s [''tests'', ''test_'' @ package_name s @ ''.py'']
           = Some (File True (test_module_text s))"
  using assms by (auto simp: layout_def directory_layout_def Let_def)

lemma layout_docs:
  assumes "use_docs s"
  shows "layout e s [''docs''] = Some (Dir True)"
    and "layout e s [''docs'', ''index.md''] = Some (File True (docs_index_text s))"
  using assms by (auto simp: layout_def directory_layout_def Let_def)

lemma layout_dom:
  "layout e s q \<noteq> None \<longleftrightarrow> q = [] \<or> q \<in> expected_paths (s\<lparr>use_venv := False\<rparr>)"
  by (auto simp: layout_def directory_layout_def expected_paths_def Let_def split: if_splits)

lemma expected_paths_venv:
  "q \<in> expected_paths s \<longleftrightarrow>
     q \<in> expected_paths (s\<lparr>use_venv := False\<rparr>) \<or> (use_venv s \<and> q = [''venv''])"
  by (auto simp: expected_paths_def)

lemma fresh_run_tree:
  assumes cw: "canonical cw" and cwd: "cwd e = abs_path cw"
    and walk: "walk_dir fs [] cw = Inr cw" and wf: "wf_fs fs"
    and slash: "CHR ''/'' \<notin> set name"
    and fresh: "\<not> path_exists fs (path_join (cwd e) name)"
    and conf: "venv_confined e"
    and s: "s = scaffolder_init e name t d v a m ds"
    and ok: "scaffold e \<lparr>files = fs, stdout = out, self = s\<rparr> = Inr st'"
  shows "\<not> (v \<and> prefix [''venv''] q) \<Longrightarrow> files st' (cw @ name # q) = layout e s q"
    and "v \<Longrightarrow> is_dir (files st') (cw @ [name, ''venv''])"
    and "venv_extends e \<Longrightarrow> layout e s q = Some (Dir w) \<Longrightarrow>
           files st' (cw @ name # q) = Some (Dir w)"
    and "venv_extends e \<Longrightarrow> layout e s q = Some (File w txt) \<Longrightarrow>
           \<exists>txt'. files st' (cw @ name # q) = Some (File w txt')"
proof -
  from fresh_run(1) [OF cw cwd walk wf slash fresh s ok]
  obtain fs6 where walk6: "walk_dir fs6 [] cw = Inr cw"
    and lay: "\<And>q. fs6 (cw @ name # q) = layout e s q"
    and venv: "if v then venv_create e (abs_path (cw @ [name, ''venv''])) fs6 = Inr (files st')
               else files st' = fs6"
    by blast
  note name = fresh_run(2) [OF cw cwd walk wf slash fresh s ok]
  have ext: "extends fs6 (files st')" if "venv_extends e"
  proof (cases v)
    case True
    with venv that [unfolded venv_extends_def, rule_format,
        where p = "abs_path (cw @ [name, ''venv''])" and fs = fs6]
    show ?thesis by simp
  next
    case False
    with venv show ?thesis by (simp add: extends_refl)
  qed
  have created: "is_dir (files st') (cw @ [name, ''venv''])
      \<and> (\<forall>p. \<not> prefix (cw @ [name, ''venv'']) p \<longrightarrow> files st' p = fs6 p)" if v
  proof -
    from lay [of "[]"] have "fs6 (cw @ [name]) = Some (Dir True)" by (simp add: layout_root)
    with cw name walk6
    have "locate fs6 (abs_path (cw @ [name, ''venv''])) = Inr (cw @ [name], ''venv'')"
      by (simp add: locate_abs_path butlast_append walk_dir_append walk_dir_plain
          del: walk_dir.simps(2))
    with conf [unfolded venv_confined_def, rule_format,
        where p = "abs_path (cw @ [name, ''venv''])" and fs = fs6 and fs' = "files st'"
          and d = "cw @ [name]" and n = "''venv''"]
      venv that
    show ?thesis by (simp add: is_dir_def)
  qed
  show "v \<Longrightarrow> is_dir (files st') (cw @ [name, ''venv''])" using created by simp
  show "files st' (cw @ name # q) = layout e s q" if "\<not> (v \<and> prefix [''venv''] q)"
  proof (cases v)
    case True
    with that have "\<not> prefix (cw @ [name, ''venv'']) (cw @ name # q)" by simp
    with created [OF True] lay [of q] show ?thesis by simp
  next
    case False
    with venv lay [of q] show ?thesis by simp
  qed
  show "files st' (cw @ name # q) = Some (Dir w)"
    if "venv_extends e" "layout e s q = Some (Dir w)"
    using extends_dirD [OF ext [OF that(1)], of "cw @ name # q" w] lay [of q] that(2) by simp
  show "\<exists>txt'. files st' (cw @ name # q) = Some (File w txt')"
    if "venv_extends e" "layout e s q = Some (File w txt)"
    using extends_fileD [OF ext [OF that(1)], of "cw @ name # q" w "txt"] lay [of q] that(2)
    by simp
qed

lemma example_wf: "wf_fs (files example_world)"
  by (auto simp: wf_fs_def example_world_def split: if_splits)

lemma makedirs_confined:
  assumes mk: "makedirs fs p = Inr fs'" and loc: "locate fs p = Inr (d, n)" and n: "plain n"
  shows "(\<exists>w. fs' (d @ [n]) = Some (Dir w)) \<and> (\<forall>q. \<not> prefix (d @ [n]) q \<longrightarrow> fs' q = fs q)"
proof -
  from loc have p: "p \<noteq> []" and w: "walk_dir fs [] (butlast (components p)) = Inr d"
    and l: "last (components p) = n"
    by (auto simp: locate_def split: if_splits sum.splits)
  have "components p = butlast (components p) @ [n]"
    using components_nonempty [of p] l by (metis append_butlast_last_id)
  with mk p have "mkdirs fs [] (butlast (components p) @ [n]) = Inr fs'"
    by (simp add: makedirs_def)
  with mkdirs_append [OF w, of "[n]"] have "mkdirs fs d [n] = Inr fs'" by simp
  with n have "fs' = fs \<and> (\<exists>w. fs (d @ [n]) = Some (Dir w)) \<or> fs' = fs(d @ [n] \<mapsto> Dir True)"
    by (auto simp: mkdirs_plain simp del: mkdirs.simps(2)
        split: option.splits node.splits bool.splits)
  then show ?thesis by auto
qed

lemma example_venv_confined: "venv_confined example_env"
  unfolding venv_confined_def using makedirs_confined by (simp add: example_env_def)

lemma example_run_completes:
  "\<exists>st. scaffold example_env (entry_state example_env example_args example_world) = Inr st"
  by (simp add: model_defs example_env_def example_world_def example_args_def)

lemma example_fresh:
  "\<not> path_exists (files example_world) (path_join (cwd example_env) ''my-proj'')"
  by (simp add: path_exists_def locate_def components_def path_join_def example_env_def
      example_world_def)

lemma example_cwd: "cwd example_env = abs_path [''w'']" "canonical [''w'']"
  "walk_dir (files example_world) [] [''w''] = Inr [''w'']"
  by (simp_all add: example_env_def abs_path_def plain_def example_world_def)

text \<open>
  C2, as the code has it: for a project name without a separator, in a working directory
  that exists, after \<^verbatim>\<open>scaffold\<close> completes in a fresh target, the target directory holds
  every expected path and, apart from what the environment builder put inside
  \<^verbatim>\<open>venv\<close>, nothing else. The package directory, its \<^verbatim>\<open>__init__.py\<close> and the seven files are
  always there; the tests directory with its two files is there if and only if the tests
  flag is set, the docs directory with \<^verbatim>\<open>index.md\<close> if and only if the docs flag is set. A
  directory named \<^verbatim>\<open>venv\<close> is there if and only if the environment flag is set or the
  package itself is named venv, since the package directory takes the package name.
\<close>

theorem scaffold_fresh_layout:
  assumes cw: "canonical cw" and cwd: "cwd e = abs_path cw"
    and walk: "walk_dir fs [] cw = Inr cw" and wf: "wf_fs fs"
    and slash: "CHR ''/'' \<notin> set name"
    and fresh: "\<not> path_exists fs (path_join (cwd e) name)"
    and conf: "venv_confined e" and vext: "venv_extends e"
    and s: "s = scaffolder_init e name t d v a m ds"
    and ok: "scaffold e \<lparr>files = fs, stdout = out, self = s\<rparr> = Inr st'"
  shows "(\<forall>q \<in> expected_paths s. files st' (cw @ name # q) \<noteq> None)
    \<and> (\<forall>q. files st' (cw @ name # q) \<noteq> None \<longrightarrow>
          q = [] \<or> q \<in> expected_paths s \<or> (v \<and> strict_prefix [''venv''] q))
    \<and> is_dir (files st') (cw @ [name])
    \<and> is_dir (files st') (cw @ [name, package_name s])
    \<and> is_file (files st') (cw @ [name, package_name s, ''__init__.py''])
    \<and> is_file (files st') (cw @ [name, ''setup.py''])
    \<and> is_file (files st') (cw @ [name, ''pyproject.toml''])
    \<and> is_file (files st') (cw @ [name, ''setup.cfg''])
    \<and> is_file (files st') (cw @ [name, ''README.md''])
    \<and> is_file (files st') (cw @ [name, ''LICENSE''])
    \<and> is_file (files st') (cw @ [name, ''.gitignore''])
    \<and> is_file (files st') (cw @ [name, ''Makefile''])
    \<and> (is_dir (files st') (cw @ [name, ''tests''])
         \<and> is_file (files st') (cw @ [name, ''tests'', ''__init__.py''])
         \<and> is_file (files st') (cw @ [name, ''tests'', ''test_'' @ package_name s @ ''.py''])
        \<longleftrightarrow> t)
    \<and> (is_dir (files st') (cw @ [name, ''docs''])
         \<and> is_file (files st') (cw @ [name, ''docs'', ''index.md''])
        \<longleftrightarrow> d)
    \<and> (is_dir (files st') (cw @ [name, ''venv'']) \<longleftrightarrow> v \<or> package_name s = ''venv'')"
proof -
  let ?F = "\<lambda>q. files st' (cw @ name # q)"
  note tree = fresh_run_tree [OF cw cwd walk wf slash fresh conf s ok]
  note names = fresh_run(4) [OF cw cwd walk wf slash fresh s ok]
  have flags: "use_tests s = t" "use_docs s = d" "use_venv s = v"
    unfolding s by (simp_all add: scaffolder_init_def)
  have keep: "?F q \<noteq> None" if "layout e s q \<noteq> None" for q
  proof -
    from that obtain nd where nd: "layout e s q = Some nd" by auto
    show ?thesis
    proof (cases nd)
      case (Dir w)
      with tree(3) [OF vext, of q w] nd show ?thesis by simp
    next
      case (File w body)
      with tree(4) [OF vext, of q w body] nd show ?thesis by auto
    qed
  qed
  have dirI: "is_dir (files st') (cw @ name # q)" if "layout e s q = Some (Dir w)" for q w
    using tree(3) [OF vext that] by (simp add: is_dir_def)
  have fileI: "is_file (files st') (cw @ name # q)" if "layout e s q = Some (File w body)"
    for q w body
    using tree(4) [OF vext that] by (auto simp: is_file_def)
  have all: "\<forall>q \<in> expected_paths s. ?F q \<noteq> None"
  proof
    fix q
    assume "q \<in> expected_paths s"
    then consider "q \<in> expected_paths (s\<lparr>use_venv := False\<rparr>)" | "v" "q = [''venv'']"
      using flags by (auto simp: expected_paths_venv [of q s])
    then show "?F q \<noteq> None"
    proof cases
      case 1
      then have "layout e s q \<noteq> None" unfolding layout_dom by simp
      then show ?thesis by (rule keep)
    next
      case 2
      with tree(2) show ?thesis by (auto simp: is_dir_def)
    qed
  qed
  have only: "q = [] \<or> q \<in> expected_paths s \<or> (v \<and> strict_prefix [''venv''] q)"
    if "?F q \<noteq> None" for q
  proof (cases "v \<and> prefix [''venv''] q")
    case True
    then show ?thesis using flags
      by (auto simp: expected_paths_venv [of q s] strict_prefix_def)
  next
    case False
    from tree(1) [OF False] that have "layout e s q \<noteq> None" by simp
    then have "q = [] \<or> q \<in> expected_paths (s\<lparr>use_venv := False\<rparr>)"
      unfolding layout_dom .
    then show ?thesis by (auto simp: expected_paths_venv [of q s])
  qed
  have base: "is_dir (files st') (cw @ [name])"
    using dirI [OF layout_root] by simp
  have pkg: "is_dir (files st') (cw @ [name, package_name s])"
    using dirI [OF layout_package [OF names]] by simp
  have init: "is_file (files st') (cw @ [name, package_name s, ''__init__.py''])"
    using layout_package_init [of e s] fileI by auto
  have seven: "is_file (files st') (cw @ [name, ''setup.py''])"
    "is_file (files st') (cw @ [name, ''pyproject.toml''])"
    "is_file (files st') (cw @ [name, ''setup.cfg''])"
    "is_file (files st') (cw @ [name, ''README.md''])"
    "is_file (files st') (cw @ [name, ''LICENSE''])"
    "is_file (files st') (cw @ [name, ''.gitignore''])"
    "is_file (files st') (cw @ [name, ''Makefile''])"
    using layout_files [THEN fileI] by simp_all
  have tests: "is_dir (files st') (cw @ [name, ''tests''])
         \<and> is_file (files st') (cw @ [name, ''tests'', ''__init__.py''])
         \<and> is_file (files st') (cw @ [name, ''tests'', ''test_'' @ package_name s @ ''.py''])
        \<longleftrightarrow> t"
  proof (cases t)
    case True
    with flags layout_tests(1) [of s e, THEN dirI] layout_tests(2,3) [of s e, THEN fileI]
    show ?thesis by simp
  next
    case False
    have "?F [''tests'', ''test_'' @ package_name s @ ''.py''] = None"
    proof (rule ccontr)
      assume "?F [''tests'', ''test_'' @ package_name s @ ''.py''] \<noteq> None"
      from only [OF this] False flags show False
        by (auto simp: expected_paths_def strict_prefix_def)
    qed
    with False show ?thesis by (simp add: is_file_def)
  qed
  have docs: "is_dir (files st') (cw @ [name, ''docs''])
         \<and> is_file (files st') (cw @ [name, ''docs'', ''index.md''])
        \<longleftrightarrow> d"
  proof (cases d)
    case True
    with flags layout_docs(1) [of s e, THEN dirI] layout_docs(2) [of s e, THEN fileI]
    show ?thesis by simp
  next
    case False
    have "?F [''docs'', ''index.md''] = None"
    proof (rule ccontr)
      assume "?F [''docs'', ''index.md''] \<noteq> None"
      from only [OF this] False flags show False
        by (auto simp: expected_paths_def strict_prefix_def)
    qed
    with False show ?thesis by (simp add: is_file_def)
  qed
  have venv: "is_dir (files st') (cw @ [name, ''venv'']) \<longleftrightarrow> v \<or> package_name s = ''venv''"
  proof
    assume "is_dir (files st') (cw @ [name, ''venv''])"
    then have "?F [''venv''] \<noteq> None" by (auto simp: is_dir_def)
    from only [OF this] flags show "v \<or> package_name s = ''venv''"
      by (auto simp: expected_paths_def strict_prefix_def split: if_splits)
  next
    assume "v \<or> package_name s = ''venv''"
    then show "is_dir (files st') (cw @ [name, ''venv''])"
    proof
      assume v
      with tree(2) show ?thesis by simp
    next
      assume "package_name s = ''venv''"
      with pkg show ?thesis by simp
    qed
  qed
  from all only base pkg init seven tests docs venv show ?thesis by blast
qed

theorem scaffold_fresh_layout_witness:
  "canonical [''w''] \<and> cwd example_env = abs_path [''w'']
   \<and> walk_dir (files example_world) [] [''w''] = Inr [''w'']
   \<and> wf_fs (files example_world)
   \<and> CHR ''/'' \<notin> set ''my-proj''
   \<and> \<not> path_exists (files example_world) (path_join (cwd example_env) ''my-proj'')
   \<and> venv_confined example_env \<and> venv_extends example_env
   \<and> (\<exists>st'. scaffold example_env (entry_state example_env example_args example_world) = Inr st'
         \<and> is_dir (files st') [''w'', ''my-proj'']
         \<and> is_dir (files st') [''w'', ''my-proj'', ''my_proj'']
         \<and> is_file (files st') [''w'', ''my-proj'', ''my_proj'', ''__init__.py'']
         \<and> is_file (files st') [''w'', ''my-proj'', ''setup.cfg'']
         \<and> is_file (files st') [''w'', ''my-proj'', ''tests'', ''test_my_proj.py'']
         \<and> is_file (files st') [''w'', ''my-proj'', ''docs'', ''index.md'']
         \<and> is_dir (files st') [''w'', ''my-proj'', ''venv'']
         \<and> files st' [''w'', ''my-proj'', ''src''] = None)"
proof -
  define s where "s = scaffolder_init example_env ''my-proj'' True True True ''Ada''
      ''ada@example.org'' ''A Python package''"
  have pn: "package_name s = ''my_proj''"
    by (simp add: s_def scaffolder_init_def str_lower_def str_replace_def char_lower_def
        is_upper_def)
  have flags: "use_tests s" "use_docs s" "use_venv s"
    by (simp_all add: s_def scaffolder_init_def)
  have es: "entry_state example_env example_args example_world
      = \<lparr>files = files example_world, stdout = [], self = s\<rparr>"
    by (simp add: entry_state_def example_args_def example_world_def s_def)
  have slash: "CHR ''/'' \<notin> set ''my-proj''" by simp
  from example_run_completes obtain st'
    where ok: "scaffold example_env \<lparr>files = files example_world, stdout = [], self = s\<rparr> = Inr st'"
    unfolding es by blast
  note T = scaffold_fresh_layout [OF example_cwd(2) example_cwd(1) example_cwd(3) example_wf
      slash example_fresh example_venv_confined example_venv_extends s_def ok]
  have none: "files st' [''w'', ''my-proj'', ''src''] = None"
  proof (rule ccontr)
    assume "files st' [''w'', ''my-proj'', ''src''] \<noteq> None"
    with T [THEN conjunct2, THEN conjunct1, rule_format, of "[''src'']"] pn flags
    show False by (simp add: expected_paths_def)
  qed
  from T pn flags none have "is_dir (files st') [''w'', ''my-proj'']
         \<and> is_dir (files st') [''w'', ''my-proj'', ''my_proj'']
         \<and> is_file (files st') [''w'', ''my-proj'', ''my_proj'', ''__init__.py'']
         \<and> is_file (files st') [''w'', ''my-proj'', ''setup.cfg'']
         \<and> is_file (files st') [''w'', ''my-proj'', ''tests'', ''test_my_proj.py'']
         \<and> is_file (files st') [''w'', ''my-proj'', ''docs'', ''index.md'']
         \<and> is_dir (files st') [''w'', ''my-proj'', ''venv'']
         \<and> files st' [''w'', ''my-proj'', ''src''] = None"
    by simp
  with ok es have "\<exists>st'. scaffold example_env (entry_state example_env example_args example_world) = Inr st'
         \<and> is_dir (files st') [''w'', ''my-proj'']
         \<and> is_dir (files st') [''w'', ''my-proj'', ''my_proj'']
         \<and> is_file (files st') [''w'', ''my-proj'', ''my_proj'', ''__init__.py'']
         \<and> is_file (files st') [''w'', ''my-proj'', ''setup.cfg'']
         \<and> is_file (files st') [''w'', ''my-proj'', ''tests'', ''test_my_proj.py'']
         \<and> is_file (files st') [''w'', ''my-proj'', ''docs'', ''index.md'']
         \<and> is_dir (files st') [''w'', ''my-proj'', ''venv'']
         \<and> files st' [''w'', ''my-proj'', ''src''] = None"
    by simp
  with example_cwd example_wf slash example_fresh example_venv_confined example_venv_extends
  show ?thesis by blast
qed

text \<open>
  A project named venv, created with every optional part switched off, in the example
  world: the target is fresh and the run completes, the environment flag is not set, and
  yet the target holds a directory named \<^verbatim>\<open>venv\<close>, the package directory.
\<close>

theorem venv_directory_without_flag:
  "\<not> path_exists (files example_world) (path_join (cwd example_env) ''venv'')
   \<and> (case scaffold example_env (entry_state example_env venv_named_args example_world) of
        Inl x \<Rightarrow> False
      | Inr st \<Rightarrow> \<not> use_venv (self st)
          \<and> files st [''w'', ''venv'', ''venv''] = Some (Dir True))"
  by (simp add: model_defs example_env_def example_world_def venv_named_args_def)

section \<open>Two runs with the same configuration\<close>











end
